theory Spec2Isabelle
  imports
    Main
    "HOL-Library.AList"
    "HOL-Library.Char_ord"
    "HOL-Library.List_Lexorder"
    "HOL-Library.Option_ord"
    "HOL-Library.Sublist"
    "HOL-Library.Multiset"
begin

section \<open>Data model of compareCSV.py\<close>

text \<open>
  \<^verbatim>\<open>read_csv\<close> is the external record source: every operation below takes the row list
  that \<^verbatim>\<open>read_csv(path)\<close> returned, next to the path itself (which the code only uses in
  its messages). A row is the dict that \<^verbatim>\<open>csv.DictReader\<close> yields:
  \<^item> one item for each field name of the header, in header order; its value is the text
    of the cell, or \<^verbatim>\<open>None\<close> where the line is shorter than the header (\<open>cells\<close>);
  \<^item> for a line longer than the header, a last item with the key \<^verbatim>\<open>None\<close> that holds the
    list of the cells beyond the header (\<open>extra\<close>).
  The field names of a dict are distinct.

  Text is a list of characters with code points below 256. White space, word characters
  and lower case are the ones Python gives these code points.
\<close>

type_synonym cell = "string option"

datatype row = Row (cells: "(string \<times> cell) list") (extra: "string list option")

type_synonym key = "cell list"

type_synonym index = "(key \<times> row) list"

text \<open>
  \<^verbatim>\<open>col in r\<close>, \<^verbatim>\<open>r.get(col)\<close> and \<^verbatim>\<open>r.get(col, "")\<close> for a column name, and \<^verbatim>\<open>r.keys()\<close>.
  A result \<open>None\<close> is Python's \<^verbatim>\<open>None\<close>: the default of \<^verbatim>\<open>get\<close> only stands in for a
  key that is not there, not for a cell that holds \<^verbatim>\<open>None\<close>.
\<close>

definition has_col :: "row \<Rightarrow> string \<Rightarrow> bool" where
  "has_col r col = (map_of (cells r) col \<noteq> None)"

definition get_opt :: "row \<Rightarrow> string \<Rightarrow> cell" where
  "get_opt r col = (case map_of (cells r) col of None \<Rightarrow> None | Some v \<Rightarrow> v)"

definition get_or_empty :: "row \<Rightarrow> string \<Rightarrow> cell" where
  "get_or_empty r col = (case map_of (cells r) col of None \<Rightarrow> Some [] | Some v \<Rightarrow> v)"

definition keys_of :: "row \<Rightarrow> string option list" where
  "keys_of r = map (\<lambda>item. Some (fst item)) (cells r) @ (case extra r of None \<Rightarrow> [] | Some _ \<Rightarrow> [None])"

text \<open>
  A printed or raised message is kept as the pieces of its f-string: literal text,
  a number (\<^verbatim>\<open>len(...)\<close>), the \<^verbatim>\<open>repr\<close> of a key tuple, of a row, and of the field
  names in a message of \<^verbatim>\<open>csv.DictWriter\<close>.
\<close>

datatype piece = Text string | Num nat | ReprKey key | ReprRow row | ReprFields "string option list"

type_synonym line = "piece list"

text \<open>
  The exceptions the code can raise: its own \<^verbatim>\<open>ValueError\<close>s and the one of
  \<^verbatim>\<open>DictWriter\<close>, with their messages; \<^verbatim>\<open>KeyError\<close> of \<^verbatim>\<open>idx[k]\<close>; the \<^verbatim>\<open>TypeError\<close> of
  \<^verbatim>\<open>sorted\<close> on keys that cannot be compared; the \<^verbatim>\<open>AttributeError\<close> of a string method
  called on \<^verbatim>\<open>None\<close>, with the name of the method.
\<close>

datatype error = ValueError line | KeyError key | TypeError | AttributeError string

text \<open>
  One \<^verbatim>\<open>with open(path, "w") ... DictWriter(f, fieldnames=...)\<close> block: the header that
  \<^verbatim>\<open>writeheader\<close> gets and the rows that \<^verbatim>\<open>writerow\<close>/\<^verbatim>\<open>writerows\<close> accepted, in order.
\<close>

record csv_write =
  path :: string
  fieldnames :: "string option list"
  written :: "row list"

text \<open>
  A run of an operation: what it returned or raised, the files it wrote and the lines
  it printed up to then, in order.
\<close>

record 'a run =
  result :: "error + 'a"
  writes :: "csv_write list"
  prints :: "line list"

definition return_run :: "'a \<Rightarrow> 'a run" where
  "return_run v = \<lparr>result = Inr v, writes = [], prints = []\<rparr>"

definition raise_run :: "error \<Rightarrow> 'a run" where
  "raise_run e = \<lparr>result = Inl e, writes = [], prints = []\<rparr>"

definition print_run :: "line \<Rightarrow> unit run" where
  "print_run l = \<lparr>result = Inr (), writes = [], prints = [l]\<rparr>"

text \<open>One statement after another: the second runs only if the first did not raise.\<close>

definition bind_run :: "'a run \<Rightarrow> ('a \<Rightarrow> 'b run) \<Rightarrow> 'b run" where
  "bind_run m f =
     (case result m of
        Inl e \<Rightarrow> \<lparr>result = Inl e, writes = writes m, prints = prints m\<rparr>
      | Inr v \<Rightarrow>
          \<lparr>result = result (f v),
           writes = writes m @ writes (f v),
           prints = prints m @ prints (f v)\<rparr>)"

text \<open>\<^verbatim>\<open>if output_path:\<close> is false for \<^verbatim>\<open>None\<close> and for the empty string.\<close>

definition given :: "string option \<Rightarrow> string option" where
  "given p = (case p of None \<Rightarrow> None | Some s \<Rightarrow> if s = [] then None else Some s)"

definition sq :: string where
  "sq = [CHR 0x27]"

text \<open>\<^verbatim>\<open>f"Column '{column_name}' not found in {file_path}"\<close>\<close>

definition column_not_found :: "string \<Rightarrow> string \<Rightarrow> line" where
  "column_not_found column_name file_path =
     [Text ''Column '', Text sq, Text column_name, Text sq, Text '' not found in '', Text file_path]"

definition wrote_rows :: "nat \<Rightarrow> string \<Rightarrow> line" where
  "wrote_rows n output_path = [Text ''Wrote '', Num n, Text '' rows to '', Text output_path]"

subsection \<open>Writing rows with \<^verbatim>\<open>csv.DictWriter\<close>\<close>

text \<open>
  \<^verbatim>\<open>DictWriter._dict_to_list\<close> with the default \<^verbatim>\<open>extrasaction="raise"\<close>: a row with a
  key that is not among the field names is refused with a \<^verbatim>\<open>ValueError\<close>. The message
  joins the \<^verbatim>\<open>repr\<close> of these keys, a set in Python, here in the order of the row.
\<close>

definition wrong_fields :: "string option list \<Rightarrow> row \<Rightarrow> string option list" where
  "wrong_fields names r = filter (\<lambda>k. k \<notin> set names) (keys_of r)"

definition fields_error :: "string option list \<Rightarrow> row \<Rightarrow> error" where
  "fields_error names r =
     ValueError [Text ''dict contains fields not in fieldnames: '', ReprFields (wrong_fields names r)]"

text \<open>
  \<^verbatim>\<open>writer.writerows(rows)\<close>: the rows are written one by one, up to the first that is
  refused.
\<close>

fun writerows :: "string option list \<Rightarrow> row list \<Rightarrow> row list \<times> error option" where
  "writerows names [] = ([], None)"
| "writerows names (r # rs) =
     (if wrong_fields names r \<noteq> [] then ([], Some (fields_error names r))
      else (case writerows names rs of (ws, e) \<Rightarrow> (r # ws, e)))"

text \<open>
  The block \<^verbatim>\<open>if output_path: with open(...) ...: writeheader(); writerows(rows)\<close> followed
  by its \<^verbatim>\<open>print\<close>, which the filters share.
\<close>

definition export_rows :: "string option \<Rightarrow> string option list \<Rightarrow> row list \<Rightarrow> (string \<Rightarrow> line) \<Rightarrow> unit run" where
  "export_rows output names rs wrote =
     (case given output of
        None \<Rightarrow> return_run ()
      | Some p \<Rightarrow>
          (case writerows names rs of
             (ws, Some e) \<Rightarrow>
               \<lparr>result = Inl e,
                writes = [\<lparr>path = p, fieldnames = names, written = ws\<rparr>],
                prints = []\<rparr>
           | (ws, None) \<Rightarrow>
               \<lparr>result = Inr (),
                writes = [\<lparr>path = p, fieldnames = names, written = ws\<rparr>],
                prints = [wrote p]\<rparr>))"

section \<open>Predicate filters\<close>

definition filter_rows_by_column ::
  "string \<Rightarrow> row list \<Rightarrow> string \<Rightarrow> string \<Rightarrow> string option \<Rightarrow> (row list) run" where
  "filter_rows_by_column file_path rows column_name val output_path =
     (case rows of
        [] \<Rightarrow> \<lparr>result = Inr [], writes = [], prints = [[Text ''No rows in file.'']]\<rparr>
      | r0 # _ \<Rightarrow>
          if \<not> has_col r0 column_name
          then raise_run (ValueError (column_not_found column_name file_path))
          else
            let filtered = filter (\<lambda>r. get_opt r column_name = Some val) rows in
            bind_run (export_rows output_path (keys_of r0) filtered (wrote_rows (length filtered)))
              (\<lambda>_. return_run filtered))"

definition attribute_column :: string where
  "attribute_column = ''Attribute 2 value(s)''"

text \<open>
  \<^verbatim>\<open>f"Wrote {len(matched)} rows with {column_name}='{value}' to {matched_output}"\<close> and
  its \<^verbatim>\<open>WITHOUT\<close> sibling.
\<close>

definition wrote_with :: "string \<Rightarrow> nat \<Rightarrow> string \<Rightarrow> string \<Rightarrow> line" where
  "wrote_with how n val output_path =
     [Text ''Wrote '', Num n, Text how, Text attribute_column, Text ''='', Text sq, Text val, Text sq,
      Text '' to '', Text output_path]"

definition filter_rows_by_column_value ::
  "string \<Rightarrow> row list \<Rightarrow> string \<Rightarrow> string option \<Rightarrow> string option \<Rightarrow> (row list \<times> row list) run" where
  "filter_rows_by_column_value file_path rows val matched_output unmatched_output =
     (case rows of
        [] \<Rightarrow> \<lparr>result = Inr ([], []), writes = [], prints = [[Text ''No rows in file'']]\<rparr>
      | r0 # _ \<Rightarrow>
          if \<not> has_col r0 attribute_column
          then raise_run (ValueError (column_not_found attribute_column file_path))
          else
            let matched = filter (\<lambda>r. get_opt r attribute_column = Some val) rows;
                unmatched = filter (\<lambda>r. get_opt r attribute_column \<noteq> Some val) rows
            in
            bind_run (export_rows matched_output (keys_of r0) matched
                        (wrote_with '' rows with '' (length matched) val))
              (\<lambda>_. bind_run (export_rows unmatched_output (keys_of r0) unmatched
                                (wrote_with '' rows WITHOUT '' (length unmatched) val))
                (\<lambda>_. return_run (matched, unmatched))))"

subsection \<open>Prefix match\<close>

text \<open>\<^verbatim>\<open>str.isspace\<close>, the characters that \<^verbatim>\<open>str.strip()\<close> removes.\<close>

definition is_space :: "char \<Rightarrow> bool" where
  "is_space c = (c \<in> set [CHR 0x09, CHR 0x0A, CHR 0x0B, CHR 0x0C, CHR 0x0D,
                           CHR 0x1C, CHR 0x1D, CHR 0x1E, CHR 0x1F, CHR 0x20,
                           CHR 0x85, CHR 0xA0])"

definition str_strip :: "string \<Rightarrow> string" where
  "str_strip s = rev (dropWhile is_space (rev (dropWhile is_space s)))"

text \<open>
  The letters with a lower case of their own: A to Z, and U+00C0 to U+00DE without the
  multiplication sign U+00D7. The lower case is 32 code points up.
\<close>

definition upper_letters :: string where
  "upper_letters = ''ABCDEFGHIJKLMNOPQRSTUVWXYZ'' @
     [CHR 0xC0, CHR 0xC1, CHR 0xC2, CHR 0xC3, CHR 0xC4, CHR 0xC5, CHR 0xC6, CHR 0xC7,
      CHR 0xC8, CHR 0xC9, CHR 0xCA, CHR 0xCB, CHR 0xCC, CHR 0xCD, CHR 0xCE, CHR 0xCF,
      CHR 0xD0, CHR 0xD1, CHR 0xD2, CHR 0xD3, CHR 0xD4, CHR 0xD5, CHR 0xD6,
      CHR 0xD8, CHR 0xD9, CHR 0xDA, CHR 0xDB, CHR 0xDC, CHR 0xDD, CHR 0xDE]"

definition lower_letters :: string where
  "lower_letters = ''abcdefghijklmnopqrstuvwxyz'' @
     [CHR 0xE0, CHR 0xE1, CHR 0xE2, CHR 0xE3, CHR 0xE4, CHR 0xE5, CHR 0xE6, CHR 0xE7,
      CHR 0xE8, CHR 0xE9, CHR 0xEA, CHR 0xEB, CHR 0xEC, CHR 0xED, CHR 0xEE, CHR 0xEF,
      CHR 0xF0, CHR 0xF1, CHR 0xF2, CHR 0xF3, CHR 0xF4, CHR 0xF5, CHR 0xF6,
      CHR 0xF8, CHR 0xF9, CHR 0xFA, CHR 0xFB, CHR 0xFC, CHR 0xFD, CHR 0xFE]"

definition lower_char :: "char \<Rightarrow> char" where
  "lower_char c = (case map_of (zip upper_letters lower_letters) c of None \<Rightarrow> c | Some l \<Rightarrow> l)"

definition str_lower :: "string \<Rightarrow> string" where
  "str_lower s = map lower_char s"

definition startswith :: "string \<Rightarrow> string \<Rightarrow> bool" where
  "startswith s p = (take (length p) s = p)"

text \<open>
  The two local \<^verbatim>\<open>starts\<close> closures, selected by \<^verbatim>\<open>case_sensitive\<close>. On \<^verbatim>\<open>None\<close> the
  first method called raises.
\<close>

definition starts :: "bool \<Rightarrow> bool \<Rightarrow> string \<Rightarrow> cell \<Rightarrow> error + bool" where
  "starts case_sensitive trim prefix_arg val =
     (case val of
        None \<Rightarrow>
          Inl (AttributeError
                 (if trim then ''strip'' else if \<not> case_sensitive then ''lower'' else ''startswith''))
      | Some s \<Rightarrow>
          (let s' = (if trim then str_strip s else s) in
           if \<not> case_sensitive then Inr (startswith (str_lower s') (str_lower prefix_arg))
           else Inr (startswith s' prefix_arg)))"

text \<open>The list comprehension \<^verbatim>\<open>[r for r in rows if starts(r.get(column_name, ""))]\<close>.\<close>

fun filter_starts :: "bool \<Rightarrow> bool \<Rightarrow> string \<Rightarrow> string \<Rightarrow> row list \<Rightarrow> error + row list" where
  "filter_starts case_sensitive trim prefix_arg column_name [] = Inr []"
| "filter_starts case_sensitive trim prefix_arg column_name (r # rs) =
     (case starts case_sensitive trim prefix_arg (get_or_empty r column_name) of
        Inl e \<Rightarrow> Inl e
      | Inr b \<Rightarrow>
          (case filter_starts case_sensitive trim prefix_arg column_name rs of
             Inl e \<Rightarrow> Inl e
           | Inr fs \<Rightarrow> Inr (if b then r # fs else fs)))"

definition filter_rows_by_column_prefix ::
  "string \<Rightarrow> row list \<Rightarrow> string \<Rightarrow> string \<Rightarrow> string option \<Rightarrow> bool \<Rightarrow> bool \<Rightarrow> (row list) run" where
  "filter_rows_by_column_prefix file_path rows column_name prefix_arg output_path case_sensitive trim =
     (case rows of
        [] \<Rightarrow> \<lparr>result = Inr [], writes = [], prints = [[Text ''No rows in file.'']]\<rparr>
      | r0 # _ \<Rightarrow>
          if \<not> has_col r0 column_name
          then raise_run (ValueError (column_not_found column_name file_path))
          else
            (case filter_starts case_sensitive trim prefix_arg column_name rows of
               Inl e \<Rightarrow> raise_run e
             | Inr filtered \<Rightarrow>
                 bind_run (export_rows output_path (keys_of r0) filtered (wrote_rows (length filtered)))
                   (\<lambda>_. return_run filtered)))"

subsection \<open>Token match: the pattern \<^verbatim>\<open>\b(cuba\w*)\b\<close> with \<^verbatim>\<open>re.IGNORECASE\<close>\<close>

text \<open>
  \<^verbatim>\<open>\w\<close> of a \<^verbatim>\<open>str\<close> pattern: the alphanumeric characters and the underscore. Below 256
  these are the digits and letters of ASCII, the letters U+00C0 to U+00FF without the
  two signs U+00D7 and U+00F7, and U+00AA, U+00B2, U+00B3, U+00B5, U+00B9, U+00BA,
  U+00BC to U+00BE.
\<close>

definition is_word_char :: "char \<Rightarrow> bool" where
  "is_word_char c =
     (c \<in> set (''0123456789_'' @ upper_letters @ lower_letters @
                [CHR 0xAA, CHR 0xB2, CHR 0xB3, CHR 0xB5, CHR 0xB9, CHR 0xBA,
                 CHR 0xBC, CHR 0xBD, CHR 0xBE, CHR 0xDF, CHR 0xFF]))"

text \<open>
  \<^verbatim>\<open>\b\<close> between two neighbouring positions: exactly one side is a word character
  (the start and the end of the text count as non-word).
\<close>

fun word_side :: "char option \<Rightarrow> bool" where
  "word_side None = False"
| "word_side (Some c) = is_word_char c"

definition boundary :: "char option \<Rightarrow> char option \<Rightarrow> bool" where
  "boundary prev nxt = (word_side prev \<noteq> word_side nxt)"

fun next_char :: "string \<Rightarrow> char option" where
  "next_char [] = None"
| "next_char (c # _) = Some c"

text \<open>
  The literal \<^verbatim>\<open>cuba\<close>, ignoring case: the rest of the text and the last character
  consumed, or \<open>None\<close> when the text does not continue with the literal.
\<close>

fun literal_ic :: "string \<Rightarrow> char option \<Rightarrow> string \<Rightarrow> (char option \<times> string) option" where
  "literal_ic [] prev s = Some (prev, s)"
| "literal_ic (p # ps) prev [] = None"
| "literal_ic (p # ps) prev (c # cs) =
     (if lower_char c = lower_char p then literal_ic ps (Some c) cs else None)"

text \<open>
  \<^verbatim>\<open>\w*\b\<close> with backtracking: take one more word character and go on, or stop
  here if a boundary follows.
\<close>

fun word_star_boundary :: "char option \<Rightarrow> string \<Rightarrow> bool" where
  "word_star_boundary prev [] = boundary prev None"
| "word_star_boundary prev (c # cs) =
     ((is_word_char c \<and> word_star_boundary (Some c) cs) \<or> boundary prev (Some c))"

definition match_here :: "char option \<Rightarrow> string \<Rightarrow> bool" where
  "match_here prev s =
     (boundary prev (next_char s) \<and>
      (case literal_ic ''cuba'' prev s of
         None \<Rightarrow> False
       | Some (b, rest) \<Rightarrow> word_star_boundary b rest))"

text \<open>\<^verbatim>\<open>pattern.search\<close>: is there a start position at which the pattern matches.\<close>

fun pattern_search :: "char option \<Rightarrow> string \<Rightarrow> bool" where
  "pattern_search prev [] = match_here prev []"
| "pattern_search prev (c # cs) = (match_here prev (c # cs) \<or> pattern_search (Some c) cs)"

text \<open>\<^verbatim>\<open>if not val: return False\<close> holds for \<^verbatim>\<open>None\<close> and for the empty text.\<close>

definition matches :: "cell \<Rightarrow> bool" where
  "matches val =
     (case val of None \<Rightarrow> False | Some s \<Rightarrow> if s = [] then False else pattern_search None s)"

definition filter_rows_name_matches_cuba ::
  "string \<Rightarrow> row list \<Rightarrow> string option \<Rightarrow> string \<Rightarrow> (row list) run" where
  "filter_rows_name_matches_cuba file_path rows output_path column_name =
     (case rows of
        [] \<Rightarrow> \<lparr>result = Inr [], writes = [], prints = [[Text ''No rows in file.'']]\<rparr>
      | r0 # _ \<Rightarrow>
          if \<not> has_col r0 column_name
          then raise_run (ValueError (column_not_found column_name file_path))
          else
            let filtered = filter (\<lambda>r. matches (get_or_empty r column_name)) rows in
            bind_run (export_rows output_path (keys_of r0) filtered (wrote_rows (length filtered)))
              (\<lambda>_. return_run filtered))"

section \<open>Keyed index\<close>

text \<open>\<^verbatim>\<open>tuple(r.get(col, "") for col in key_columns)\<close>\<close>

definition key_of :: "string list \<Rightarrow> row \<Rightarrow> key" where
  "key_of key_columns r = map (get_or_empty r) key_columns"

text \<open>
  The dict \<^verbatim>\<open>index\<close> is its item list in insertion order; \<^verbatim>\<open>index[key] = r\<close> replaces
  the value of a key that is there and appends a new key otherwise, which is
  \<^const>\<open>AList.update\<close>.
\<close>

definition index_by_keys :: "row list \<Rightarrow> string list \<Rightarrow> error + index" where
  "index_by_keys rows key_columns =
     (case rows of
        [] \<Rightarrow> Inr []
      | r0 # _ \<Rightarrow>
          (case find (\<lambda>col. \<not> has_col r0 col) key_columns of
             Some col \<Rightarrow>
               Inl (ValueError [Text ''Key column '', Text sq, Text col, Text sq, Text '' not found in CSV''])
           | None \<Rightarrow>
               Inr (fold (\<lambda>r index. AList.update (key_of key_columns r) r index) rows [])))"

section \<open>Reconciliation by key\<close>

text \<open>The validation loop over \<^verbatim>\<open>compare_columns\<close>: the first failing check raises.\<close>

fun validate_compare_columns :: "string \<Rightarrow> string \<Rightarrow> row \<Rightarrow> row \<Rightarrow> string list \<Rightarrow> error option" where
  "validate_compare_columns file1 file2 r1 r2 [] = None"
| "validate_compare_columns file1 file2 r1 r2 (col # cols) =
     (if \<not> has_col r1 col then Some (ValueError (column_not_found col file1))
      else if \<not> has_col r2 col then Some (ValueError (column_not_found col file2))
      else validate_compare_columns file1 file2 r1 r2 cols)"

subsection \<open>\<^verbatim>\<open>sorted\<close> on a set of key tuples\<close>

text \<open>
  \<^verbatim>\<open>x < y\<close> on two tuples looks for the first position where the elements are not equal
  and compares these two elements; a text and \<^verbatim>\<open>None\<close> cannot be compared, which raises
  \<^verbatim>\<open>TypeError\<close>.
\<close>

fun lt_raises :: "key \<Rightarrow> key \<Rightarrow> bool" where
  "lt_raises [] ys = False"
| "lt_raises (x # xs) [] = False"
| "lt_raises (x # xs) (y # ys) = (if x = y then lt_raises xs ys else (x = None \<or> y = None))"

text \<open>
  \<^verbatim>\<open>sorted(S)\<close>. Where no two keys of the set raise, the comparison is the lexicographic
  order of the tuples, texts by code point, and the result is the sorted list of the
  set. Where two keys of the set raise, \<^verbatim>\<open>sorted\<close> raises: the two share a prefix, the
  keys with this prefix stand together in any sorted order, those with \<^verbatim>\<open>None\<close> next and
  those with a text next are both among them, and a sort by comparisons has to compare
  two neighbours of its result.
\<close>

definition py_sorted :: "key set \<Rightarrow> error + key list" where
  "py_sorted S =
     (if \<exists>x \<in> S. \<exists>y \<in> S. lt_raises x y then Inl TypeError else Inr (sorted_list_of_set S))"

subsection \<open>The reports of the rows on one side only\<close>

text \<open>\<^verbatim>\<open>f"  key={k} -> {idx1[k]}"\<close> and \<^verbatim>\<open>"-" * 60\<close>\<close>

definition key_line :: "key \<Rightarrow> row \<Rightarrow> line" where
  "key_line k r = [Text ''  key='', ReprKey k, Text '' -> '', ReprRow r]"

definition dashes :: line where
  "dashes = [Text (replicate 60 (CHR ''-''))]"

text \<open>
  The loop \<^verbatim>\<open>for k in ...: writer.writerow(idx[k]); print(...)\<close> of the branch with an
  output path: the rows written, the lines printed, and the exception that ended the
  loop, if one did. \<^verbatim>\<open>idx[k]\<close> raises \<^verbatim>\<open>KeyError\<close> for a key that is not in the dict.
\<close>

fun write_loop :: "string option list \<Rightarrow> index \<Rightarrow> key list \<Rightarrow> row list \<times> line list \<times> error option" where
  "write_loop names idx [] = ([], [], None)"
| "write_loop names idx (k # ks) =
     (case map_of idx k of
        None \<Rightarrow> ([], [], Some (KeyError k))
      | Some r \<Rightarrow>
          if wrong_fields names r \<noteq> [] then ([], [], Some (fields_error names r))
          else (case write_loop names idx ks of (ws, ls, e) \<Rightarrow> (r # ws, key_line k r # ls, e)))"

text \<open>The loop \<^verbatim>\<open>for k in ...: print(...)\<close> of the branch without an output path.\<close>

fun print_loop :: "index \<Rightarrow> key list \<Rightarrow> line list \<times> error option" where
  "print_loop idx [] = ([], None)"
| "print_loop idx (k # ks) =
     (case map_of idx k of
        None \<Rightarrow> ([], Some (KeyError k))
      | Some r \<Rightarrow> (case print_loop idx ks of (ls, e) \<Rightarrow> (key_line k r # ls, e)))"

text \<open>
  One \<^verbatim>\<open>if only_in_N:\<close> block. With an output path the file is opened and its header
  written before \<^verbatim>\<open>sorted\<close> is called.
\<close>

definition only_in_block ::
  "string \<Rightarrow> index \<Rightarrow> key set \<Rightarrow> string option \<Rightarrow> string option list \<Rightarrow> unit run" where
  "only_in_block title idx only_in output names =
     (if only_in = {} then return_run ()
      else
        (case given output of
           Some p \<Rightarrow>
             (case py_sorted only_in of
                Inl e \<Rightarrow>
                  \<lparr>result = Inl e,
                   writes = [\<lparr>path = p, fieldnames = names, written = []\<rparr>],
                   prints = [[Text title]]\<rparr>
              | Inr ks \<Rightarrow>
                  (case write_loop names idx ks of
                     (ws, ls, Some e) \<Rightarrow>
                       \<lparr>result = Inl e,
                        writes = [\<lparr>path = p, fieldnames = names, written = ws\<rparr>],
                        prints = [Text title] # ls\<rparr>
                   | (ws, ls, None) \<Rightarrow>
                       \<lparr>result = Inr (),
                        writes = [\<lparr>path = p, fieldnames = names, written = ws\<rparr>],
                        prints = [Text title] # ls @ [dashes]\<rparr>))
         | None \<Rightarrow>
             (case py_sorted only_in of
                Inl e \<Rightarrow> \<lparr>result = Inl e, writes = [], prints = [[Text title]]\<rparr>
              | Inr ks \<Rightarrow>
                  (case print_loop idx ks of
                     (ls, Some e) \<Rightarrow> \<lparr>result = Inl e, writes = [], prints = [Text title] # ls\<rparr>
                   | (ls, None) \<Rightarrow>
                       \<lparr>result = Inr (), writes = [], prints = [Text title] # ls @ [dashes]\<rparr>))))"

subsection \<open>The differences of the shared keys\<close>

text \<open>
  \<^verbatim>\<open>row_out\<close>: the key columns with the elements of the key tuple, then \<^verbatim>\<open>column\<close>,
  \<^verbatim>\<open>value_file1\<close>, \<^verbatim>\<open>value_file2\<close>, each a dict assignment. The key tuple has one
  element for each key column.
\<close>

definition row_out :: "string list \<Rightarrow> key \<Rightarrow> string \<Rightarrow> cell \<Rightarrow> cell \<Rightarrow> row" where
  "row_out key_columns k col v1 v2 =
     Row (AList.update ''value_file2'' v2
           (AList.update ''value_file1'' v1
             (AList.update ''column'' (Some col)
               (fold (\<lambda>(key_col, v) acc. AList.update key_col v acc) (zip key_columns k) []))))
         None"

text \<open>
  \<^verbatim>\<open>f"Diff key={k}, column={col}: '{v1}' vs '{v2}'"\<close>; a value in an f-string is its
  \<^verbatim>\<open>str\<close>.
\<close>

definition str_value :: "cell \<Rightarrow> string" where
  "str_value v = (case v of None \<Rightarrow> ''None'' | Some s \<Rightarrow> s)"

definition diff_line :: "key \<Rightarrow> string \<Rightarrow> cell \<Rightarrow> cell \<Rightarrow> line" where
  "diff_line k col v1 v2 =
     [Text ''Diff key='', ReprKey k, Text '', column='', Text col, Text '': '',
      Text sq, Text (str_value v1), Text sq, Text '' vs '', Text sq, Text (str_value v2), Text sq]"

text \<open>
  The inner loop over \<^verbatim>\<open>compare_columns\<close> for one shared key. The state is
  \<^verbatim>\<open>diff_rows\<close> and the lines printed so far; both grow at the end.
\<close>

fun compare_row :: "string list \<Rightarrow> key \<Rightarrow> row \<Rightarrow> row \<Rightarrow> string list \<Rightarrow> row list \<times> line list \<Rightarrow> row list \<times> line list" where
  "compare_row key_columns k r1 r2 [] st = st"
| "compare_row key_columns k r1 r2 (col # cols) (diff_rows, out) =
     (let v1 = get_or_empty r1 col; v2 = get_or_empty r2 col in
      compare_row key_columns k r1 r2 cols
        (if v1 \<noteq> v2
         then (diff_rows @ [row_out key_columns k col v1 v2], out @ [diff_line k col v1 v2])
         else (diff_rows, out)))"

text \<open>The body of the outer loop, key by key, and the exception that ended it, if one did.\<close>

fun collect_diffs ::
  "string list \<Rightarrow> string list \<Rightarrow> index \<Rightarrow> index \<Rightarrow> key list \<Rightarrow> row list \<times> line list \<Rightarrow>
     (row list \<times> line list) \<times> error option" where
  "collect_diffs key_columns compare_columns idx1 idx2 [] st = (st, None)"
| "collect_diffs key_columns compare_columns idx1 idx2 (k # ks) st =
     (case map_of idx1 k of
        None \<Rightarrow> (st, Some (KeyError k))
      | Some r1 \<Rightarrow>
          (case map_of idx2 k of
             None \<Rightarrow> (st, Some (KeyError k))
           | Some r2 \<Rightarrow>
               collect_diffs key_columns compare_columns idx1 idx2 ks
                 (compare_row key_columns k r1 r2 compare_columns st)))"

text \<open>The loop \<^verbatim>\<open>for k in sorted(in_both)\<close>; it returns \<^verbatim>\<open>diff_rows\<close>.\<close>

definition diff_loop :: "string list \<Rightarrow> string list \<Rightarrow> index \<Rightarrow> index \<Rightarrow> key set \<Rightarrow> (row list) run" where
  "diff_loop key_columns compare_columns idx1 idx2 in_both =
     (case py_sorted in_both of
        Inl e \<Rightarrow> raise_run e
      | Inr ks \<Rightarrow>
          (case collect_diffs key_columns compare_columns idx1 idx2 ks ([], []) of
             ((diff_rows, out), Some e) \<Rightarrow> \<lparr>result = Inl e, writes = [], prints = out\<rparr>
           | ((diff_rows, out), None) \<Rightarrow> \<lparr>result = Inr diff_rows, writes = [], prints = out\<rparr>))"

text \<open>\<^verbatim>\<open>f"Wrote {len(diff_rows)} differences to {diff_output_path}"\<close>\<close>

definition wrote_differences :: "nat \<Rightarrow> string \<Rightarrow> line" where
  "wrote_differences n output_path = [Text ''Wrote '', Num n, Text '' differences to '', Text output_path]"

definition no_column_differences :: line where
  "no_column_differences = [Text ''No column differences found; diff CSV not created.'']"

text \<open>The export of the differences: \<^verbatim>\<open>if diff_output_path and diff_rows: ... elif diff_output_path: ...\<close>\<close>

definition export_diffs :: "string option \<Rightarrow> string list \<Rightarrow> row list \<Rightarrow> unit run" where
  "export_diffs diff_output_path key_columns diff_rows =
     (case given diff_output_path of
        None \<Rightarrow> return_run ()
      | Some p \<Rightarrow>
          if diff_rows \<noteq> []
          then export_rows diff_output_path
                 (map Some (key_columns @ [''column'', ''value_file1'', ''value_file2'']))
                 diff_rows (wrote_differences (length diff_rows))
          else print_run no_column_differences)"

definition no_differences :: line where
  "no_differences = [Text ''No differences found for the given key/compare columns.'']"

text \<open>Everything of \<^verbatim>\<open>compare_csv_by_keys\<close> after the two indexes are built.\<close>

definition compare_indexes ::
  "index \<Rightarrow> index \<Rightarrow> string option list \<Rightarrow> string option list \<Rightarrow> string list \<Rightarrow> string list \<Rightarrow>
     string option \<Rightarrow> string option \<Rightarrow> string option \<Rightarrow> unit run" where
  "compare_indexes idx1 idx2 names1 names2 key_columns compare_columns
       diff_output_path only_in_1_output only_in_2_output =
     (let keys1 = set (map fst idx1);
          keys2 = set (map fst idx2);
          only_in_1 = keys1 - keys2;
          only_in_2 = keys2 - keys1;
          in_both = keys1 \<inter> keys2
      in
      bind_run (only_in_block ''Rows only in file1:'' idx1 only_in_1 only_in_1_output names1) (\<lambda>_.
      bind_run (only_in_block ''Rows only in file2:'' idx2 only_in_2 only_in_2_output names2) (\<lambda>_.
      bind_run (diff_loop key_columns compare_columns idx1 idx2 in_both) (\<lambda>diff_rows.
      bind_run (export_diffs diff_output_path key_columns diff_rows) (\<lambda>_.
      if only_in_1 = {} \<and> only_in_2 = {} \<and> diff_rows = []
      then print_run no_differences else return_run ())))))"

text \<open>\<^verbatim>\<open>f"{file} has no data."\<close>\<close>

definition no_data :: "string \<Rightarrow> line" where
  "no_data file = [Text file, Text '' has no data.'']"

definition compare_csv_by_keys ::
  "string \<Rightarrow> string \<Rightarrow> row list \<Rightarrow> row list \<Rightarrow> string list \<Rightarrow> string list \<Rightarrow>
     string option \<Rightarrow> string option \<Rightarrow> string option \<Rightarrow> unit run" where
  "compare_csv_by_keys file1 file2 rows1 rows2 key_columns compare_columns
       diff_output_path only_in_1_output only_in_2_output =
     (case rows1 of
        [] \<Rightarrow> print_run (no_data file1)
      | r1 # _ \<Rightarrow>
     (case rows2 of
        [] \<Rightarrow> print_run (no_data file2)
      | r2 # _ \<Rightarrow>
     (case validate_compare_columns file1 file2 r1 r2 compare_columns of
        Some e \<Rightarrow> raise_run e
      | None \<Rightarrow>
     (case index_by_keys rows1 key_columns of
        Inl e \<Rightarrow> raise_run e
      | Inr idx1 \<Rightarrow>
     (case index_by_keys rows2 key_columns of
        Inl e \<Rightarrow> raise_run e
      | Inr idx2 \<Rightarrow>
          compare_indexes idx1 idx2 (keys_of r1) (keys_of r2) key_columns compare_columns
            diff_output_path only_in_1_output only_in_2_output)))))"

section \<open>Notions used in the statements\<close>

text \<open>The loop of \<^const>\<open>index_by_keys\<close>, started from any dict.\<close>

abbreviation (input) build :: "string list \<Rightarrow> row list \<Rightarrow> index \<Rightarrow> index" where
  "build K rows idx \<equiv> fold (\<lambda>r index. AList.update (key_of K r) r index) rows idx"

text \<open>
  A difference is the key, the column, and the two values; it gives one row of
  \<^verbatim>\<open>diff_rows\<close> and one printed line.
\<close>

type_synonym difference = "key \<times> string \<times> cell \<times> cell"

definition fact_row :: "string list \<Rightarrow> difference \<Rightarrow> row" where
  "fact_row K f = (case f of (k, c, v1, v2) \<Rightarrow> row_out K k c v1 v2)"

definition fact_line :: "difference \<Rightarrow> line" where
  "fact_line f = (case f of (k, c, v1, v2) \<Rightarrow> diff_line k c v1 v2)"

subsection \<open>The report of a completed comparison\<close>

text \<open>
  The rows that an index holds under the keys of a list, the differences of one shared
  key in the order of the compare columns, and the differences of a list of keys.
\<close>

definition rows_for :: "index \<Rightarrow> key list \<Rightarrow> row list" where
  "rows_for idx ks = List.map_filter (map_of idx) ks"

definition key_differences :: "string list \<Rightarrow> index \<Rightarrow> index \<Rightarrow> key \<Rightarrow> difference list" where
  "key_differences C idx1 idx2 k =
     (case (map_of idx1 k, map_of idx2 k) of
        (Some r1, Some r2) \<Rightarrow>
          map (\<lambda>c. (k, c, get_or_empty r1 c, get_or_empty r2 c))
            (filter (\<lambda>c. get_or_empty r1 c \<noteq> get_or_empty r2 c) C)
      | _ \<Rightarrow> [])"

definition diff_facts :: "string list \<Rightarrow> index \<Rightarrow> index \<Rightarrow> key list \<Rightarrow> difference list" where
  "diff_facts C idx1 idx2 ks = concat (map (key_differences C idx1 idx2) ks)"

text \<open>
  The rows only in one dataset, by ascending key, and the differences of the shared
  keys, by ascending key.
\<close>

definition only_in_rows :: "string list \<Rightarrow> row list \<Rightarrow> row list \<Rightarrow> row list" where
  "only_in_rows K rows other =
     rows_for (build K rows [])
       (sorted_list_of_set (key_of K ` set rows - key_of K ` set other))"

definition shared_differences :: "string list \<Rightarrow> string list \<Rightarrow> row list \<Rightarrow> row list \<Rightarrow> difference list" where
  "shared_differences K C rows1 rows2 =
     diff_facts C (build K rows1 []) (build K rows2 [])
       (sorted_list_of_set (key_of K ` set rows1 \<inter> key_of K ` set rows2))"

text \<open>
  The run that \<^const>\<open>compare_csv_by_keys\<close> assembles from three such lists when it
  completes: the files written, where a path is given and the list has an element,
  and the lines printed.
\<close>

definition export_to :: "string option \<Rightarrow> string option list \<Rightarrow> row list \<Rightarrow> csv_write list" where
  "export_to output names rs =
     (case given output of
        None \<Rightarrow> []
      | Some p \<Rightarrow> [\<lparr>path = p, fieldnames = names, written = rs\<rparr>])"

definition only_in_lines :: "string \<Rightarrow> string list \<Rightarrow> row list \<Rightarrow> line list" where
  "only_in_lines title K A =
     (if A = [] then [] else [Text title] # map (\<lambda>r. key_line (key_of K r) r) A @ [dashes])"

definition report ::
  "string list \<Rightarrow> string option \<Rightarrow> string option \<Rightarrow> string option \<Rightarrow>
     string option list \<Rightarrow> string option list \<Rightarrow>
     row list \<Rightarrow> row list \<Rightarrow> difference list \<Rightarrow> unit run" where
  "report K diff_output_path only_in_1_output only_in_2_output names1 names2 A B F =
     \<lparr>result = Inr (),
      writes = (if A = [] then [] else export_to only_in_1_output names1 A)
             @ (if B = [] then [] else export_to only_in_2_output names2 B)
             @ (if F = [] then []
                else export_to diff_output_path
                       (map Some (K @ [''column'', ''value_file1'', ''value_file2'']))
                       (map (fact_row K) F)),
      prints = only_in_lines ''Rows only in file1:'' K A
             @ only_in_lines ''Rows only in file2:'' K B
             @ map fact_line F
             @ (case given diff_output_path of
                  None \<Rightarrow> []
                | Some p \<Rightarrow>
                    [if F = [] then no_column_differences else wrote_differences (length F) p])
             @ (if A = [] \<and> B = [] \<and> F = [] then [no_differences] else [])\<rparr>"

text \<open>
  Two conditions on the rows of a file. No key cell is \<^verbatim>\<open>None\<close>: no line ends before
  a key column. No row has a field beyond those of the first row, which
  \<^verbatim>\<open>csv.DictWriter\<close> would refuse: no line is longer than the header unless the first
  is.
\<close>

definition text_keys :: "string list \<Rightarrow> row list \<Rightarrow> bool" where
  "text_keys K rows = list_all (\<lambda>r. None \<notin> set (key_of K r)) rows"

definition fits_header :: "row list \<Rightarrow> bool" where
  "fits_header rows = list_all (\<lambda>r. wrong_fields (keys_of (hd rows)) r = []) rows"

subsection \<open>The text of a printed line\<close>

text \<open>
  \<^verbatim>\<open>str\<close> of a natural number, and the text of a line given Python's \<^verbatim>\<open>repr\<close> for the
  pieces that are printed by \<^verbatim>\<open>repr\<close>, which the statements leave arbitrary. The output
  of a comparison of two datasets with rows starts with one of five lines, if it has
  a line.
\<close>

fun decimal :: "nat \<Rightarrow> string" where
  "decimal n =
     (if n < 10 then [char_of (48 + n)]
      else decimal (n div 10) @ [char_of (48 + n mod 10)])"

declare decimal.simps [simp del]

fun piece_text :: "(piece \<Rightarrow> string) \<Rightarrow> piece \<Rightarrow> string" where
  "piece_text repr_of (Text s) = s"
| "piece_text repr_of (Num n) = decimal n"
| "piece_text repr_of (ReprKey k) = repr_of (ReprKey k)"
| "piece_text repr_of (ReprRow r) = repr_of (ReprRow r)"
| "piece_text repr_of (ReprFields fs) = repr_of (ReprFields fs)"

definition line_text :: "(piece \<Rightarrow> string) \<Rightarrow> line \<Rightarrow> string" where
  "line_text repr_of l = concat (map (piece_text repr_of) l)"

definition first_line :: "line \<Rightarrow> bool" where
  "first_line l =
     (l = [Text ''Rows only in file1:''] \<or>
      l = [Text ''Rows only in file2:''] \<or>
      (\<exists>f. l = fact_line f) \<or>
      l = no_column_differences \<or>
      l = no_differences)"

definition starts_well :: "line list \<Rightarrow> bool" where
  "starts_well ls = (case ls of [] \<Rightarrow> True | l # _ \<Rightarrow> first_line l)"

subsection \<open>The paths of the files of a run\<close>

text \<open>Every file that the run wrote is at one of the given paths.\<close>

definition goes_to :: "string option list \<Rightarrow> 'a run \<Rightarrow> bool" where
  "goes_to ps m = list_all (\<lambda>w. Some (path w) \<in> set ps) (writes m)"

section \<open>Runs\<close>

lemma result_return_run [simp]: "result (return_run v) = Inr v"
  and writes_return_run [simp]: "writes (return_run v) = []"
  and prints_return_run [simp]: "prints (return_run v) = []"
  by (simp_all add: return_run_def)

lemma result_raise_run [simp]: "result (raise_run e) = Inl e"
  and writes_raise_run [simp]: "writes (raise_run e) = []"
  and prints_raise_run [simp]: "prints (raise_run e) = []"
  by (simp_all add: raise_run_def)

lemma result_print_run [simp]: "result (print_run l) = Inr ()"
  and writes_print_run [simp]: "writes (print_run l) = []"
  and prints_print_run [simp]: "prints (print_run l) = [l]"
  by (simp_all add: print_run_def)

lemma result_bind_run:
  "result (bind_run m f) = (case result m of Inl e \<Rightarrow> Inl e | Inr v \<Rightarrow> result (f v))"
  by (simp add: bind_run_def split: sum.splits)

lemma writes_bind_run:
  "writes (bind_run m f) = writes m @ (case result m of Inl e \<Rightarrow> [] | Inr v \<Rightarrow> writes (f v))"
  by (simp add: bind_run_def split: sum.splits)

lemma prints_bind_run:
  "prints (bind_run m f) = prints m @ (case result m of Inl e \<Rightarrow> [] | Inr v \<Rightarrow> prints (f v))"
  by (simp add: bind_run_def split: sum.splits)

lemma bind_return_result:
  "result (bind_run m (\<lambda>_. return_run x)) = Inr v \<Longrightarrow> v = x"
  by (simp add: result_bind_run split: sum.splits)

section \<open>Properties of the keyed index\<close>

lemma build_map_of:
  "map_of (build K rows idx) = map_of (rev (map (\<lambda>r. (key_of K r, r)) rows) @ idx)"
proof (induction rows arbitrary: idx)
  case Nil
  show ?case by simp
next
  case (Cons r rows)
  show ?case
    by (simp add: Cons.IH update_conv' map_add_def fun_eq_iff split: option.splits)
qed


lemma build_keys:
  "fst ` set (build K rows idx) = key_of K ` set rows \<union> fst ` set idx"
  by (induction rows arbitrary: idx) (auto simp: dom_update)

lemma index_by_keys_Inr:
  "index_by_keys rows K = Inr idx \<Longrightarrow> idx = build K rows []"
  by (auto simp: index_by_keys_def split: list.splits option.splits)

lemma index_by_keys_valid:
  "list_all (has_col r0) K \<Longrightarrow> index_by_keys (r0 # rest) K = Inr (build K (r0 # rest) [])"
  by (auto simp: index_by_keys_def find_None_iff list_all_iff split: option.splits)

lemma index_keys:
  "index_by_keys rows K = Inr idx \<Longrightarrow> set (map fst idx) = key_of K ` set rows"
  by (drule index_by_keys_Inr) (simp add: build_keys)







section \<open>Properties of the filters\<close>

lemma filter_starts_subseq:
  "filter_starts cs tr p col rows = Inr fs \<Longrightarrow> subseq fs rows"
proof (induction rows arbitrary: fs)
  case Nil
  then show ?case by simp
next
  case (Cons r rows)
  from Cons.prems obtain b fs' where
    "starts cs tr p (get_or_empty r col) = Inr b"
    and rest: "filter_starts cs tr p col rows = Inr fs'"
    and fs: "fs = (if b then r # fs' else fs')"
    by (auto split: sum.splits)
  from Cons.IH [OF rest] fs show ?case
    by auto
qed

text \<open>
  C8. On records whose \<^verbatim>\<open>Name\<close> values are \<^verbatim>\<open>Cuba\<close>, \<^verbatim>\<open>Cuban Sandwich\<close>, \<^verbatim>\<open>Aruba\<close>
  and \<^verbatim>\<open>Cubalibre!\<close>, the token filter returns the first, the second and the fourth
  record, and not the third.
\<close>

theorem filter_rows_name_matches_cuba_example:
  "filter_rows_name_matches_cuba ''cuba.csv''
     [Row [(''Name'', Some ''Cuba'')] None, Row [(''Name'', Some ''Cuban Sandwich'')] None,
      Row [(''Name'', Some ''Aruba'')] None, Row [(''Name'', Some ''Cubalibre!'')] None]
     None ''Name''
   = \<lparr>result = Inr [Row [(''Name'', Some ''Cuba'')] None,
                      Row [(''Name'', Some ''Cuban Sandwich'')] None,
                      Row [(''Name'', Some ''Cubalibre!'')] None],
      writes = [], prints = []\<rparr>"
  by (simp add: filter_rows_name_matches_cuba_def has_col_def given_def get_or_empty_def
      matches_def match_here_def boundary_def is_word_char_def lower_char_def
      lower_letters_def upper_letters_def export_rows_def bind_run_def return_run_def)

text \<open>
  C10. What a filter returns is a subsequence of its input: input records, unchanged,
  in their input order. The matched and the unmatched records of the complement
  variant together are the input records, each as often as it occurs there.
\<close>

theorem filters_return_subsequences:
  "(result (filter_rows_by_column file_path rows column_name val output_path) = Inr out1 \<longrightarrow>
      subseq out1 rows) \<and>
   (result (filter_rows_by_column_value file_path rows val matched_output unmatched_output)
        = Inr out2 \<longrightarrow>
      subseq (fst out2) rows \<and> subseq (snd out2) rows \<and>
      mset (fst out2) + mset (snd out2) = mset rows) \<and>
   (result (filter_rows_by_column_prefix file_path rows column_name prefix_arg output_path
        case_sensitive trim) = Inr out3 \<longrightarrow>
      subseq out3 rows) \<and>
   (result (filter_rows_name_matches_cuba file_path rows output_path column_name) = Inr out4 \<longrightarrow>
      subseq out4 rows)"
proof (intro conjI impI)
  assume "result (filter_rows_by_column file_path rows column_name val output_path) = Inr out1"
  then have "out1 = [] \<or> out1 = filter (\<lambda>r. get_opt r column_name = Some val) rows"
    by (auto simp: filter_rows_by_column_def Let_def split: list.splits if_splits
        dest: bind_return_result)
  then show "subseq out1 rows" by auto
next
  assume "result (filter_rows_name_matches_cuba file_path rows output_path column_name) = Inr out4"
  then have "out4 = [] \<or> out4 = filter (\<lambda>r. matches (get_or_empty r column_name)) rows"
    by (auto simp: filter_rows_name_matches_cuba_def Let_def split: list.splits if_splits
        dest: bind_return_result)
  then show "subseq out4 rows" by auto
next
  assume a: "result (filter_rows_by_column_prefix file_path rows column_name prefix_arg output_path
        case_sensitive trim) = Inr out3"
  show "subseq out3 rows"
  proof (cases rows)
    case Nil
    with a show ?thesis by (simp add: filter_rows_by_column_prefix_def)
  next
    case (Cons r0 rest)
    with a obtain filtered where
      f: "filter_starts case_sensitive trim prefix_arg column_name rows = Inr filtered"
      and "result (bind_run (export_rows output_path (keys_of r0) filtered
              (wrote_rows (length filtered))) (\<lambda>_. return_run filtered)) = Inr out3"
      by (auto simp: filter_rows_by_column_prefix_def split: if_splits sum.splits)
    then have "out3 = filtered"
      by (auto dest: bind_return_result)
    with filter_starts_subseq [OF f] show ?thesis by simp
  qed
next
  assume a: "result (filter_rows_by_column_value file_path rows val matched_output unmatched_output)
      = Inr out2"
  have part: "mset (filter P xs) + mset (filter (\<lambda>x. \<not> P x) xs) = mset xs" for P and xs :: "row list"
    by (induction xs) simp_all
  from a have ret: "out2 =
      (filter (\<lambda>r. get_opt r attribute_column = Some val) rows,
       filter (\<lambda>r. get_opt r attribute_column \<noteq> Some val) rows)"
    by (auto simp: filter_rows_by_column_value_def Let_def result_bind_run
        split: list.splits if_splits sum.splits)
  show "subseq (fst out2) rows" by (simp add: ret)
  show "subseq (snd out2) rows" by (simp add: ret)
  show "mset (fst out2) + mset (snd out2) = mset rows"
    using part [of "\<lambda>r. get_opt r attribute_column = Some val" rows] by (simp add: ret)
qed

theorem filters_return_subsequences_witness:
  "subseq [Row [(''brand'', Some ''Zyn'')] None]
     [Row [(''brand'', Some ''Zyn'')] None, Row [(''brand'', Some ''On'')] None] \<and>
   mset [Row [(''Attribute 2 value(s)'', Some ''77'')] None]
     + mset [Row [(''Attribute 2 value(s)'', Some ''78'')] None,
             Row [(''Attribute 2 value(s)'', None)] None]
     = mset [Row [(''Attribute 2 value(s)'', Some ''78'')] None,
             Row [(''Attribute 2 value(s)'', Some ''77'')] None,
             Row [(''Attribute 2 value(s)'', None)] None] \<and>
   subseq [Row [(''Name'', Some '' 77 Blue'')] None]
     [Row [(''Name'', Some ''Red 77'')] None, Row [(''Name'', Some '' 77 Blue'')] None] \<and>
   subseq [Row [(''Name'', Some ''La Cubana'')] None]
     [Row [(''Name'', Some ''La Cubana'')] None, Row [(''Name'', None)] None]"
proof -
  let ?rows1 = "[Row [(''brand'', Some ''Zyn'')] None, Row [(''brand'', Some ''On'')] None]"
  let ?rows2 = "[Row [(''Attribute 2 value(s)'', Some ''78'')] None,
                 Row [(''Attribute 2 value(s)'', Some ''77'')] None,
                 Row [(''Attribute 2 value(s)'', None)] None]"
  let ?rows3 = "[Row [(''Name'', Some ''Red 77'')] None, Row [(''Name'', Some '' 77 Blue'')] None]"
  let ?rows4 = "[Row [(''Name'', Some ''La Cubana'')] None, Row [(''Name'', None)] None]"
  have e1: "result (filter_rows_by_column ''data.csv'' ?rows1 ''brand'' ''Zyn'' None)
      = Inr [Row [(''brand'', Some ''Zyn'')] None]"
    by (simp add: filter_rows_by_column_def has_col_def get_opt_def given_def export_rows_def
        result_bind_run)
  have e2: "result (filter_rows_by_column_value ''data.csv'' ?rows2 ''77'' None None)
      = Inr ([Row [(''Attribute 2 value(s)'', Some ''77'')] None],
             [Row [(''Attribute 2 value(s)'', Some ''78'')] None,
              Row [(''Attribute 2 value(s)'', None)] None])"
    by (simp add: filter_rows_by_column_value_def has_col_def get_opt_def given_def
        attribute_column_def export_rows_def result_bind_run)
  have e3: "result (filter_rows_by_column_prefix ''file1.csv'' ?rows3 ''Name'' ''77'' None False True)
      = Inr [Row [(''Name'', Some '' 77 Blue'')] None]"
    by (simp add: filter_rows_by_column_prefix_def has_col_def get_or_empty_def given_def
        export_rows_def result_bind_run starts_def str_strip_def is_space_def startswith_def
        str_lower_def lower_char_def upper_letters_def lower_letters_def)
  have e4: "result (filter_rows_name_matches_cuba ''cuba.csv'' ?rows4 None ''Name'')
      = Inr [Row [(''Name'', Some ''La Cubana'')] None]"
    by (simp add: filter_rows_name_matches_cuba_def has_col_def given_def get_or_empty_def
      matches_def match_here_def boundary_def is_word_char_def lower_char_def
      lower_letters_def upper_letters_def export_rows_def result_bind_run)
  have "subseq [Row [(''brand'', Some ''Zyn'')] None] ?rows1"
    using filters_return_subsequences [THEN conjunct1, rule_format, OF e1] .
  moreover have "mset [Row [(''Attribute 2 value(s)'', Some ''77'')] None]
      + mset [Row [(''Attribute 2 value(s)'', Some ''78'')] None,
              Row [(''Attribute 2 value(s)'', None)] None] = mset ?rows2"
    using filters_return_subsequences [THEN conjunct2, THEN conjunct1, rule_format, OF e2]
    by simp
  moreover have "subseq [Row [(''Name'', Some '' 77 Blue'')] None] ?rows3"
    using filters_return_subsequences [THEN conjunct2, THEN conjunct2, THEN conjunct1,
        rule_format, OF e3] .
  moreover have "subseq [Row [(''Name'', Some ''La Cubana'')] None] ?rows4"
    using filters_return_subsequences [THEN conjunct2, THEN conjunct2, THEN conjunct2,
        rule_format, OF e4] .
  ultimately show ?thesis by blast
qed

section \<open>Properties of the reconciliation\<close>

text \<open>
  C1. File 1 with \<^verbatim>\<open>{id:1,price:10}\<close> and \<^verbatim>\<open>{id:2,price:20}\<close>, file 2 with
  \<^verbatim>\<open>{id:2,price:25}\<close> and \<^verbatim>\<open>{id:3,price:30}\<close>, key \<^verbatim>\<open>[id]\<close>, compare \<^verbatim>\<open>[price]\<close>,
  the three output paths of the signature: the run returns without an error, the
  only-in-file-1 report holds \<^verbatim>\<open>{id:1,price:10}\<close>, the only-in-file-2 report
  \<^verbatim>\<open>{id:3,price:30}\<close>, and the difference report the one record
  \<^verbatim>\<open>{id:2, column:price, value_file1:20, value_file2:25}\<close>.
\<close>

theorem compare_csv_by_keys_example:
  "compare_csv_by_keys ''file1.csv'' ''file2.csv''
     [Row [(''id'', Some ''1''), (''price'', Some ''10'')] None,
      Row [(''id'', Some ''2''), (''price'', Some ''20'')] None]
     [Row [(''id'', Some ''2''), (''price'', Some ''25'')] None,
      Row [(''id'', Some ''3''), (''price'', Some ''30'')] None]
     [''id''] [''price'']
     (Some ''differences.csv'') (Some ''only_in_file1.csv'') (Some ''only_in_file2.csv'')
   = \<lparr>result = Inr (),
      writes =
        [\<lparr>path = ''only_in_file1.csv'', fieldnames = [Some ''id'', Some ''price''],
            written = [Row [(''id'', Some ''1''), (''price'', Some ''10'')] None]\<rparr>,
         \<lparr>path = ''only_in_file2.csv'', fieldnames = [Some ''id'', Some ''price''],
            written = [Row [(''id'', Some ''3''), (''price'', Some ''30'')] None]\<rparr>,
         \<lparr>path = ''differences.csv'',
            fieldnames = [Some ''id'', Some ''column'', Some ''value_file1'', Some ''value_file2''],
            written =
              [Row [(''id'', Some ''2''), (''column'', Some ''price''),
                    (''value_file1'', Some ''20''), (''value_file2'', Some ''25'')] None]\<rparr>],
      prints =
        [[Text ''Rows only in file1:''],
         key_line [Some ''1''] (Row [(''id'', Some ''1''), (''price'', Some ''10'')] None),
         dashes,
         [Text ''Rows only in file2:''],
         key_line [Some ''3''] (Row [(''id'', Some ''3''), (''price'', Some ''30'')] None),
         dashes,
         diff_line [Some ''2''] ''price'' (Some ''20'') (Some ''25''),
         [Text ''Wrote '', Num 1, Text '' differences to '', Text ''differences.csv'']]\<rparr>"
proof -
  have only1: "{[Some ''1''], [Some ''2'']} - {[Some ''2''], [Some ''3'']} = {[Some ''1'']}"
    by auto
  have only2: "{[Some ''2''], [Some ''3'']} - {[Some ''1''], [Some ''2'']} = {[Some ''3'']}"
    by auto
  have both: "{[Some ''1''], [Some ''2'']} \<inter> {[Some ''2''], [Some ''3'']} = {[Some ''2'']}"
    by auto
  show ?thesis
    by (simp add: compare_csv_by_keys_def has_col_def index_by_keys_def key_of_def
        get_or_empty_def compare_indexes_def only_in_block_def given_def export_diffs_def
        export_rows_def diff_loop_def py_sorted_def wrong_fields_def keys_of_def
        row_out_def wrote_differences_def bind_run_def return_run_def Let_def only1 only2 both)
qed

section \<open>Printed lines of a comparison\<close>

lemma compare_row_eq:
  "compare_row K k r1 r2 cols (ds, out) =
     (ds @ map (fact_row K) (map (\<lambda>c. (k, c, get_or_empty r1 c, get_or_empty r2 c))
            (filter (\<lambda>c. get_or_empty r1 c \<noteq> get_or_empty r2 c) cols)),
      out @ map fact_line (map (\<lambda>c. (k, c, get_or_empty r1 c, get_or_empty r2 c))
            (filter (\<lambda>c. get_or_empty r1 c \<noteq> get_or_empty r2 c) cols)))"
  by (induction cols arbitrary: ds out) (simp_all add: Let_def fact_row_def fact_line_def)

lemma collect_diffs_shape:
  "collect_diffs K C idx1 idx2 ks (ds, out) = ((ds', out'), e) \<Longrightarrow>
     \<exists>F. ds' = ds @ map (fact_row K) F \<and> out' = out @ map fact_line F"
proof (induction ks arbitrary: ds out)
  case Nil
  then show ?case by simp
next
  case (Cons k ks)
  show ?case
  proof (cases "map_of idx1 k = None \<or> map_of idx2 k = None")
    case True
    with Cons.prems have "ds' = ds \<and> out' = out"
      by (auto split: option.splits)
    then have "ds' = ds @ map (fact_row K) [] \<and> out' = out @ map fact_line []"
      by simp
    then show ?thesis by (rule exI)
  next
    case False
    then obtain r1 r2 where r: "map_of idx1 k = Some r1" "map_of idx2 k = Some r2"
      by auto
    let ?F = "map (\<lambda>c. (k, c, get_or_empty r1 c, get_or_empty r2 c))
                (filter (\<lambda>c. get_or_empty r1 c \<noteq> get_or_empty r2 c) C)"
    from Cons.prems have "collect_diffs K C idx1 idx2 ks
        (ds @ map (fact_row K) ?F, out @ map fact_line ?F) = ((ds', out'), e)"
      by (simp add: r compare_row_eq)
    from Cons.IH [OF this] obtain F where
      "ds' = (ds @ map (fact_row K) ?F) @ map (fact_row K) F"
      "out' = (out @ map fact_line ?F) @ map fact_line F"
      by blast
    then have "ds' = ds @ map (fact_row K) (?F @ F) \<and> out' = out @ map fact_line (?F @ F)"
      by simp
    then show ?thesis by (rule exI)
  qed
qed

lemma diff_loop_shape:
  "\<exists>F. prints (diff_loop K C idx1 idx2 S) = map fact_line F \<and>
       (\<forall>ds. result (diff_loop K C idx1 idx2 S) = Inr ds \<longrightarrow> ds = map (fact_row K) F)"
proof (cases "py_sorted S")
  case (Inl e)
  then have "prints (diff_loop K C idx1 idx2 S) = map fact_line [] \<and>
       (\<forall>ds. result (diff_loop K C idx1 idx2 S) = Inr ds \<longrightarrow> ds = map (fact_row K) [])"
    by (simp add: diff_loop_def)
  then show ?thesis by (rule exI)
next
  case (Inr ks)
  obtain ds out e where c: "collect_diffs K C idx1 idx2 ks ([], []) = ((ds, out), e)"
    by (metis surj_pair)
  from collect_diffs_shape [OF c] obtain F where
    F: "ds = map (fact_row K) F" "out = map fact_line F"
    by auto
  have "prints (diff_loop K C idx1 idx2 S) = map fact_line F \<and>
       (\<forall>ds. result (diff_loop K C idx1 idx2 S) = Inr ds \<longrightarrow> ds = map (fact_row K) F)"
    by (cases e) (simp_all add: diff_loop_def Inr c F)
  then show ?thesis by (rule exI)
qed

lemma starts_well_append:
  "starts_well a \<Longrightarrow> (a = [] \<Longrightarrow> starts_well b) \<Longrightarrow> starts_well (a @ b)"
  by (cases a) (simp_all add: starts_well_def)

lemma starts_well_Nil [simp]: "starts_well []"
  by (simp add: starts_well_def)

lemma starts_well_only_in_block:
  "title = ''Rows only in file1:'' \<or> title = ''Rows only in file2:'' \<Longrightarrow>
     starts_well (prints (only_in_block title idx S output names))"
  by (auto simp: only_in_block_def starts_well_def first_line_def
      split: option.splits sum.splits prod.splits)

lemma starts_well_export_empty:
  "starts_well (prints (export_diffs d K []))"
  by (simp add: export_diffs_def starts_well_def first_line_def split: option.splits)

lemma starts_well_diffs:
  "starts_well (prints
     (bind_run (diff_loop K C idx1 idx2 S) (\<lambda>diff_rows.
      bind_run (export_diffs d K diff_rows) (\<lambda>_.
      if c \<and> diff_rows = [] then print_run no_differences else return_run ()))))"
proof -
  obtain F where p: "prints (diff_loop K C idx1 idx2 S) = map fact_line F"
    and r: "\<And>ds. result (diff_loop K C idx1 idx2 S) = Inr ds \<Longrightarrow> ds = map (fact_row K) F"
    using diff_loop_shape [of K C idx1 idx2 S] by blast
  show ?thesis
  proof (cases F)
    case (Cons f F')
    have "first_line (fact_line f)"
      unfolding first_line_def by blast
    then show ?thesis
      by (simp add: prints_bind_run p Cons starts_well_def)
  next
    case Nil
    show ?thesis
    proof (cases "result (diff_loop K C idx1 idx2 S)")
      case (Inl e)
      then show ?thesis
        by (simp add: prints_bind_run p Nil)
    next
      case (Inr ds)
      with r Nil have ds: "ds = []" by simp
      have "starts_well (prints (export_diffs d K []) @
          (case result (export_diffs d K []) of
             Inl e \<Rightarrow> []
           | Inr v \<Rightarrow> prints (if c then print_run no_differences else return_run ())))"
        by (rule starts_well_append [OF starts_well_export_empty])
          (simp add: starts_well_def first_line_def split: sum.splits)
      then show ?thesis
        by (simp add: prints_bind_run p Nil Inr ds)
    qed
  qed
qed

lemma starts_well_bind:
  "starts_well (prints m) \<Longrightarrow> (\<And>v. starts_well (prints (f v))) \<Longrightarrow>
     starts_well (prints (bind_run m f))"
  by (cases "result m") (simp_all add: prints_bind_run starts_well_append)

lemma starts_well_compare_indexes:
  "starts_well (prints (compare_indexes idx1 idx2 h1 h2 K C d o1 o2))"
  unfolding compare_indexes_def Let_def conj_assoc [symmetric]
  by (intro starts_well_bind starts_well_only_in_block starts_well_diffs disjI1 disjI2 refl)

lemma starts_well_compare_csv_by_keys:
  "rows1 \<noteq> [] \<Longrightarrow> rows2 \<noteq> [] \<Longrightarrow>
     starts_well (prints (compare_csv_by_keys file1 file2 rows1 rows2 K C d o1 o2))"
  by (simp add: compare_csv_by_keys_def starts_well_compare_indexes
      split: list.splits option.splits sum.splits)

lemma no_data_text:
  "line_text repr_of (no_data f) = f @ '' has no data.''"
  by (simp add: line_text_def no_data_def)

lemma no_data_tail:
  "take 2 (rev (line_text repr_of (no_data f))) = ''.a''"
  by (simp add: no_data_text)

lemma first_line_tail:
  assumes "first_line l"
  shows "take 2 (rev (line_text repr_of l)) \<noteq> ''.a''"
proof -
  from assms consider
    "l = [Text ''Rows only in file1:'']" | "l = [Text ''Rows only in file2:'']"
    | f where "l = fact_line f"
    | "l = no_column_differences"
    | "l = no_differences"
    unfolding first_line_def by blast
  then show ?thesis
  proof cases
    case 1
    then show ?thesis by (simp add: line_text_def)
  next
    case 2
    then show ?thesis by (simp add: line_text_def)
  next
    case 3
    obtain k c v1 v2 where "f = (k, c, v1, v2)" by (cases f) auto
    with 3 show ?thesis
      by (simp add: line_text_def fact_line_def diff_line_def sq_def)
  next
    case 4
    then show ?thesis by (simp add: line_text_def no_column_differences_def)
  next
    case 5
    then show ?thesis by (simp add: line_text_def no_differences_def)
  qed
qed

text \<open>
  C5. With \<^verbatim>\<open>rows1\<close> or \<^verbatim>\<open>rows2\<close> empty the comparison returns without an error,
  writes nothing and prints the one line \<^verbatim>\<open>"<file> has no data."\<close> for the first
  empty file. No comparison of two datasets with rows prints that text, whatever
  \<^verbatim>\<open>repr\<close> gives for keys and rows and however the comparison ends: it prints no line
  or its first line is another one.
\<close>

theorem compare_csv_by_keys_no_data:
  "(rows1 = [] \<or> rows2 = [] \<longrightarrow>
      compare_csv_by_keys file1 file2 rows1 rows2 K C d o1 o2 =
        \<lparr>result = Inr (), writes = [],
         prints = [no_data (if rows1 = [] then file1 else file2)]\<rparr>) \<and>
   (R1 \<noteq> [] \<longrightarrow> R2 \<noteq> [] \<longrightarrow>
      map (line_text repr_of) (prints (compare_csv_by_keys g1 g2 R1 R2 K' C' d' o1' o2'))
        \<noteq> [line_text repr_of (no_data f)])"
proof (intro conjI impI)
  assume "rows1 = [] \<or> rows2 = []"
  then show "compare_csv_by_keys file1 file2 rows1 rows2 K C d o1 o2 =
        \<lparr>result = Inr (), writes = [],
         prints = [no_data (if rows1 = [] then file1 else file2)]\<rparr>"
    by (auto simp: compare_csv_by_keys_def print_run_def split: list.splits)
next
  assume "R1 \<noteq> []" and "R2 \<noteq> []"
  then have ok: "starts_well (prints (compare_csv_by_keys g1 g2 R1 R2 K' C' d' o1' o2'))"
    by (rule starts_well_compare_csv_by_keys)
  show "map (line_text repr_of) (prints (compare_csv_by_keys g1 g2 R1 R2 K' C' d' o1' o2'))
      \<noteq> [line_text repr_of (no_data f)]"
  proof
    assume eq: "map (line_text repr_of) (prints (compare_csv_by_keys g1 g2 R1 R2 K' C' d' o1' o2'))
      = [line_text repr_of (no_data f)]"
    then obtain l where p: "prints (compare_csv_by_keys g1 g2 R1 R2 K' C' d' o1' o2') = [l]"
      by (auto simp: map_eq_Cons_conv)
    with ok have l: "first_line l"
      by (simp add: starts_well_def)
    from eq p have "line_text repr_of l = line_text repr_of (no_data f)"
      by simp
    then have "take 2 (rev (line_text repr_of l)) = ''.a''"
      by (simp only: no_data_tail)
    with first_line_tail [OF l] show False by blast
  qed
qed

theorem compare_csv_by_keys_no_data_witness:
  "compare_csv_by_keys ''file1.csv'' ''file2.csv'' []
       [Row [(''id'', Some ''2''), (''price'', Some ''25'')] None] [''id''] [''price'']
       (Some ''differences.csv'') (Some ''only_in_file1.csv'') (Some ''only_in_file2.csv'') =
     \<lparr>result = Inr (), writes = [], prints = [no_data ''file1.csv'']\<rparr> \<and>
   map (line_text (\<lambda>p. ''repr''))
     (prints (compare_csv_by_keys ''a.csv'' ''a.csv''
        [Row [(''id'', Some ''2''), (''price'', Some ''25'')] None]
        [Row [(''id'', Some ''2''), (''price'', Some ''25'')] None] [''id''] [''price'']
        None None None))
     \<noteq> [line_text (\<lambda>p. ''repr'') (no_data ''file1.csv'')]"
proof -
  let ?rows = "[Row [(''id'', Some ''2''), (''price'', Some ''25'')] None]"
  have first: "compare_csv_by_keys ''file1.csv'' ''file2.csv'' [] ?rows [''id''] [''price'']
       (Some ''differences.csv'') (Some ''only_in_file1.csv'') (Some ''only_in_file2.csv'') =
     \<lparr>result = Inr (), writes = [], prints = [no_data ''file1.csv'']\<rparr>"
    using compare_csv_by_keys_no_data [THEN conjunct1, of "[]" ?rows "''file1.csv''" "''file2.csv''"
        "[''id'']" "[''price'']" "Some ''differences.csv''" "Some ''only_in_file1.csv''"
        "Some ''only_in_file2.csv''"]
    by simp
  have second: "map (line_text (\<lambda>p. ''repr''))
     (prints (compare_csv_by_keys ''a.csv'' ''a.csv'' ?rows ?rows [''id''] [''price''] None None None))
     \<noteq> [line_text (\<lambda>p. ''repr'') (no_data ''file1.csv'')]"
    using compare_csv_by_keys_no_data [THEN conjunct2, rule_format, of ?rows ?rows]
    by simp
  from first second show ?thesis by (rule conjI)
qed

section \<open>Compare columns\<close>

lemma validate_compare_columns_fails:
  "\<not> list_all (\<lambda>c. has_col r1 c \<and> has_col r2 c) C \<Longrightarrow>
     \<exists>c fl. c \<in> set C \<and>
       (\<not> has_col r1 c \<and> fl = file1 \<or> has_col r1 c \<and> \<not> has_col r2 c \<and> fl = file2) \<and>
       validate_compare_columns file1 file2 r1 r2 C = Some (ValueError (column_not_found c fl))"
proof (induction C)
  case Nil
  then show ?case by simp
next
  case (Cons c C)
  show ?case
  proof (cases "has_col r1 c \<and> has_col r2 c")
    case True
    with Cons.prems have "\<not> list_all (\<lambda>c. has_col r1 c \<and> has_col r2 c) C" by simp
    from Cons.IH [OF this] obtain c' fl where
      "c' \<in> set C"
      "\<not> has_col r1 c' \<and> fl = file1 \<or> has_col r1 c' \<and> \<not> has_col r2 c' \<and> fl = file2"
      "validate_compare_columns file1 file2 r1 r2 C = Some (ValueError (column_not_found c' fl))"
      by blast
    with True show ?thesis
      by (intro exI [of _ c'] exI [of _ fl]) simp
  next
    case False
    show ?thesis
    proof (cases "has_col r1 c")
      case True
      with False show ?thesis
        by (intro exI [of _ c] exI [of _ file2]) simp
    next
      case False
      then show ?thesis
        by (intro exI [of _ c] exI [of _ file1]) simp
    qed
  qed
qed

text \<open>
  C4. When the first record of either dataset lacks a compare column, the comparison
  of two non-empty datasets raises the \<^verbatim>\<open>ValueError\<close> that names the first such
  column of the list and the file whose header lacks it. It does so whatever the key
  columns and the output paths are: the check comes before the indexes are built, and
  the run ends with the error, with nothing printed and nothing written.
\<close>

theorem compare_csv_by_keys_missing_compare_column:
  assumes "\<not> list_all (\<lambda>c. has_col r1 c \<and> has_col r2 c) C"
  shows "\<exists>c fl. c \<in> set C \<and>
     (\<not> has_col r1 c \<and> fl = file1 \<or> has_col r1 c \<and> \<not> has_col r2 c \<and> fl = file2) \<and>
     (\<forall>K d o1 o2.
        compare_csv_by_keys file1 file2 (r1 # rest1) (r2 # rest2) K C d o1 o2 =
          \<lparr>result = Inl (ValueError (column_not_found c fl)), writes = [], prints = []\<rparr>)"
proof -
  from validate_compare_columns_fails [OF assms, of file1 file2] obtain c fl where
    c: "c \<in> set C"
    and f: "\<not> has_col r1 c \<and> fl = file1 \<or> has_col r1 c \<and> \<not> has_col r2 c \<and> fl = file2"
    and v: "validate_compare_columns file1 file2 r1 r2 C = Some (ValueError (column_not_found c fl))"
    by blast
  have "compare_csv_by_keys file1 file2 (r1 # rest1) (r2 # rest2) K C d o1 o2 =
      \<lparr>result = Inl (ValueError (column_not_found c fl)), writes = [], prints = []\<rparr>" for K d o1 o2
    by (simp add: compare_csv_by_keys_def v raise_run_def)
  with c f show ?thesis by blast
qed

theorem compare_csv_by_keys_missing_compare_column_witness:
  "\<exists>c fl. c \<in> set [''price'', ''stock''] \<and>
     (\<not> has_col (Row [(''id'', Some ''1''), (''price'', Some ''10''), (''stock'', Some ''5'')] None) c
        \<and> fl = ''file1.csv'' \<or>
      has_col (Row [(''id'', Some ''1''), (''price'', Some ''10''), (''stock'', Some ''5'')] None) c \<and>
      \<not> has_col (Row [(''id'', Some ''1''), (''price'', Some ''10'')] None) c \<and> fl = ''file2.csv'') \<and>
     (\<forall>K d o1 o2.
        compare_csv_by_keys ''file1.csv'' ''file2.csv''
          (Row [(''id'', Some ''1''), (''price'', Some ''10''), (''stock'', Some ''5'')] None # [])
          (Row [(''id'', Some ''1''), (''price'', Some ''10'')] None # [])
          K [''price'', ''stock''] d o1 o2 =
          \<lparr>result = Inl (ValueError (column_not_found c fl)), writes = [], prints = []\<rparr>)"
proof -
  have bad: "\<not> list_all
      (\<lambda>c. has_col (Row [(''id'', Some ''1''), (''price'', Some ''10''), (''stock'', Some ''5'')] None) c \<and>
           has_col (Row [(''id'', Some ''1''), (''price'', Some ''10'')] None) c)
      [''price'', ''stock'']"
    by (simp add: has_col_def)
  show ?thesis
    by (rule compare_csv_by_keys_missing_compare_column [OF bad])
qed

section \<open>Output paths of a comparison\<close>

lemma only_in_block_empty: "only_in_block title idx {} output names = return_run ()"
  by (simp add: only_in_block_def)

lemma compare_indexes_no_only_in_1:
  assumes "set (map fst idx1) \<subseteq> set (map fst idx2)"
  shows "compare_indexes idx1 idx2 h1 h2 K C d o1 o2 = compare_indexes idx1 idx2 h1 h2 K C d None o2"
proof -
  from assms have e: "set (map fst idx1) - set (map fst idx2) = {}"
    by (simp only: Diff_eq_empty_iff)
  show ?thesis
    by (simp only: compare_indexes_def Let_def e only_in_block_empty)
qed

lemma compare_indexes_no_only_in_2:
  assumes "set (map fst idx2) \<subseteq> set (map fst idx1)"
  shows "compare_indexes idx1 idx2 h1 h2 K C d o1 o2 = compare_indexes idx1 idx2 h1 h2 K C d o1 None"
proof -
  from assms have e: "set (map fst idx2) - set (map fst idx1) = {}"
    by (simp only: Diff_eq_empty_iff)
  show ?thesis
    by (simp only: compare_indexes_def Let_def e only_in_block_empty)
qed

lemma compare_csv_by_keys_no_only_in_1:
  assumes "key_of K ` set rows1 \<subseteq> key_of K ` set rows2"
  shows "compare_csv_by_keys file1 file2 rows1 rows2 K C d o1 o2 =
         compare_csv_by_keys file1 file2 rows1 rows2 K C d None o2"
proof (cases "index_by_keys rows1 K")
  case Inl
  then show ?thesis
    by (simp add: compare_csv_by_keys_def split: list.splits option.splits)
next
  case i1: (Inr idx1)
  show ?thesis
  proof (cases "index_by_keys rows2 K")
    case Inl
    then show ?thesis
      by (simp add: compare_csv_by_keys_def split: list.splits option.splits sum.splits)
  next
    case i2: (Inr idx2)
    have "set (map fst idx1) \<subseteq> set (map fst idx2)"
      using assms by (simp only: index_keys [OF i1] index_keys [OF i2])
    then have "compare_indexes idx1 idx2 h1 h2 K C d o1 o2
        = compare_indexes idx1 idx2 h1 h2 K C d None o2" for h1 h2
      by (rule compare_indexes_no_only_in_1)
    then show ?thesis
      by (simp add: compare_csv_by_keys_def i1 i2 split: list.splits option.splits)
  qed
qed

lemma compare_csv_by_keys_no_only_in_2:
  assumes "key_of K ` set rows2 \<subseteq> key_of K ` set rows1"
  shows "compare_csv_by_keys file1 file2 rows1 rows2 K C d o1 o2 =
         compare_csv_by_keys file1 file2 rows1 rows2 K C d o1 None"
proof (cases "index_by_keys rows1 K")
  case Inl
  then show ?thesis
    by (simp add: compare_csv_by_keys_def split: list.splits option.splits)
next
  case i1: (Inr idx1)
  show ?thesis
  proof (cases "index_by_keys rows2 K")
    case Inl
    then show ?thesis
      by (simp add: compare_csv_by_keys_def split: list.splits option.splits sum.splits)
  next
    case i2: (Inr idx2)
    have "set (map fst idx2) \<subseteq> set (map fst idx1)"
      using assms by (simp only: index_keys [OF i1] index_keys [OF i2])
    then have "compare_indexes idx1 idx2 h1 h2 K C d o1 o2
        = compare_indexes idx1 idx2 h1 h2 K C d o1 None" for h1 h2
      by (rule compare_indexes_no_only_in_2)
    then show ?thesis
      by (simp add: compare_csv_by_keys_def i1 i2 split: list.splits option.splits)
  qed
qed

lemma goes_to_bind:
  "goes_to ps m \<Longrightarrow> (\<And>v. goes_to ps (f v)) \<Longrightarrow> goes_to ps (bind_run m f)"
  by (simp add: goes_to_def writes_bind_run split: sum.splits)

lemma goes_to_quiet [simp]:
  "goes_to ps (return_run v)" "goes_to ps (raise_run e)" "goes_to ps (print_run l)"
  by (simp_all add: goes_to_def)

lemma goes_to_export_rows:
  "given output \<in> set ps \<Longrightarrow> goes_to ps (export_rows output names rs wrote)"
  by (auto simp: goes_to_def export_rows_def split: option.splits prod.splits)

lemma goes_to_only_in_block:
  "given output \<in> set ps \<Longrightarrow> goes_to ps (only_in_block title idx S output names)"
  by (auto simp: goes_to_def only_in_block_def split: option.splits prod.splits sum.splits)

lemma goes_to_diff_loop: "goes_to ps (diff_loop K C idx1 idx2 S)"
  by (auto simp: goes_to_def diff_loop_def split: option.splits prod.splits sum.splits)

lemma goes_to_export_diffs:
  "given d \<in> set ps \<Longrightarrow> goes_to ps (export_diffs d K rs)"
  by (auto simp: export_diffs_def intro: goes_to_export_rows split: option.splits)

lemma goes_to_compare_indexes:
  "goes_to [given o1, given o2, given d] (compare_indexes idx1 idx2 h1 h2 K C d o1 o2)"
  unfolding compare_indexes_def Let_def
  by (intro goes_to_bind goes_to_only_in_block goes_to_diff_loop goes_to_export_diffs)
    (simp_all)

lemma goes_to_compare_csv_by_keys:
  "goes_to [given o1, given o2, given d] (compare_csv_by_keys file1 file2 rows1 rows2 K C d o1 o2)"
  by (simp add: compare_csv_by_keys_def goes_to_compare_indexes
      split: list.splits option.splits sum.splits)

text \<open>
  C9. When every key of file 1 is a key of file 2, the only-in-file-1 output path is
  not used: the run is the run without that path, and every file it writes is at the
  only-in-file-2 path or at the difference path. The same holds with the two files
  exchanged.
\<close>

theorem only_in_reports_written_only_for_keys:
  "(key_of K ` set rows1 \<subseteq> key_of K ` set rows2 \<longrightarrow>
      compare_csv_by_keys file1 file2 rows1 rows2 K C d o1 o2 =
        compare_csv_by_keys file1 file2 rows1 rows2 K C d None o2 \<and>
      (\<forall>w \<in> set (writes (compare_csv_by_keys file1 file2 rows1 rows2 K C d o1 o2)).
         Some (path w) = given o2 \<or> Some (path w) = given d)) \<and>
   (key_of K ` set rows2 \<subseteq> key_of K ` set rows1 \<longrightarrow>
      compare_csv_by_keys file1 file2 rows1 rows2 K C d o1 o2 =
        compare_csv_by_keys file1 file2 rows1 rows2 K C d o1 None \<and>
      (\<forall>w \<in> set (writes (compare_csv_by_keys file1 file2 rows1 rows2 K C d o1 o2)).
         Some (path w) = given o1 \<or> Some (path w) = given d))"
proof (intro conjI impI)
  assume sub: "key_of K ` set rows1 \<subseteq> key_of K ` set rows2"
  then show eq: "compare_csv_by_keys file1 file2 rows1 rows2 K C d o1 o2 =
        compare_csv_by_keys file1 file2 rows1 rows2 K C d None o2"
    by (rule compare_csv_by_keys_no_only_in_1)
  show "\<forall>w \<in> set (writes (compare_csv_by_keys file1 file2 rows1 rows2 K C d o1 o2)).
         Some (path w) = given o2 \<or> Some (path w) = given d"
    unfolding eq
    using goes_to_compare_csv_by_keys [of None o2 d file1 file2 rows1 rows2 K C]
    by (auto simp: goes_to_def list_all_iff given_def)
next
  assume sub: "key_of K ` set rows2 \<subseteq> key_of K ` set rows1"
  then show eq: "compare_csv_by_keys file1 file2 rows1 rows2 K C d o1 o2 =
        compare_csv_by_keys file1 file2 rows1 rows2 K C d o1 None"
    by (rule compare_csv_by_keys_no_only_in_2)
  show "\<forall>w \<in> set (writes (compare_csv_by_keys file1 file2 rows1 rows2 K C d o1 o2)).
         Some (path w) = given o1 \<or> Some (path w) = given d"
    unfolding eq
    using goes_to_compare_csv_by_keys [of o1 None d file1 file2 rows1 rows2 K C]
    by (auto simp: goes_to_def list_all_iff given_def)
qed

theorem only_in_reports_written_only_for_keys_witness:
  "compare_csv_by_keys ''file1.csv'' ''file2.csv''
     [Row [(''id'', Some ''2''), (''price'', Some ''20'')] None]
     [Row [(''id'', Some ''2''), (''price'', Some ''25'')] None,
      Row [(''id'', Some ''3''), (''price'', Some ''30'')] None]
     [''id''] [''price'']
     (Some ''differences.csv'') (Some ''only_in_file1.csv'') (Some ''only_in_file2.csv'') =
   compare_csv_by_keys ''file1.csv'' ''file2.csv''
     [Row [(''id'', Some ''2''), (''price'', Some ''20'')] None]
     [Row [(''id'', Some ''2''), (''price'', Some ''25'')] None,
      Row [(''id'', Some ''3''), (''price'', Some ''30'')] None]
     [''id''] [''price'']
     (Some ''differences.csv'') None (Some ''only_in_file2.csv'') \<and>
   list_all (\<lambda>w. path w = ''only_in_file2.csv'' \<or> path w = ''differences.csv'')
     (writes (compare_csv_by_keys ''file1.csv'' ''file2.csv''
       [Row [(''id'', Some ''2''), (''price'', Some ''20'')] None]
       [Row [(''id'', Some ''2''), (''price'', Some ''25'')] None,
        Row [(''id'', Some ''3''), (''price'', Some ''30'')] None]
       [''id''] [''price'']
       (Some ''differences.csv'') (Some ''only_in_file1.csv'') (Some ''only_in_file2.csv'')))"
proof -
  let ?rows1 = "[Row [(''id'', Some ''2''), (''price'', Some ''20'')] None]"
  let ?rows2 = "[Row [(''id'', Some ''2''), (''price'', Some ''25'')] None,
      Row [(''id'', Some ''3''), (''price'', Some ''30'')] None]"
  have sub: "key_of [''id''] ` set ?rows1 \<subseteq> key_of [''id''] ` set ?rows2"
    by (simp add: key_of_def get_or_empty_def)
  note inst = only_in_reports_written_only_for_keys [THEN conjunct1, rule_format, OF sub,
      of "''file1.csv''" "''file2.csv''" "[''price'']" "Some ''differences.csv''"
        "Some ''only_in_file1.csv''" "Some ''only_in_file2.csv''"]
  from inst show ?thesis
    by (simp add: list_all_iff given_def)
qed

section \<open>The comparison of files whose key cells are all text\<close>

lemma build_entry:
  assumes "map_of (build K rows []) k = Some r"
  shows "key_of K r = k \<and> r \<in> set rows"
proof -
  from assms have "map_of (rev (map (\<lambda>r. (key_of K r, r)) rows)) k = Some r"
    by (simp add: build_map_of)
  then have "(k, r) \<in> set (rev (map (\<lambda>r. (key_of K r, r)) rows))"
    by (rule map_of_SomeD)
  then show ?thesis by auto
qed

lemma lt_raises_text:
  "None \<notin> set x \<Longrightarrow> None \<notin> set y \<Longrightarrow> \<not> lt_raises x y"
proof (induction x y rule: lt_raises.induct)
  case (3 x xs y ys)
  from "3.prems" have "x \<noteq> None" by (cases x) simp_all
  moreover from "3.prems" have "y \<noteq> None" by (cases y) simp_all
  moreover from 3 have "x = y \<Longrightarrow> \<not> lt_raises xs ys" by simp
  ultimately show ?case by (simp del: not_None_eq)
qed simp_all

lemma py_sorted_text:
  "\<forall>k \<in> S. None \<notin> set k \<Longrightarrow> py_sorted S = Inr (sorted_list_of_set S)"
  by (auto simp: py_sorted_def lt_raises_text)

lemma rows_for_keys:
  "set ks \<subseteq> fst ` set (build K rows []) \<Longrightarrow>
     map (key_of K) (rows_for (build K rows []) ks) = ks \<and>
     set (rows_for (build K rows []) ks) \<subseteq> set rows"
proof (induction ks)
  case Nil
  show ?case by (simp add: rows_for_def map_filter_simps)
next
  case (Cons k ks)
  then obtain r where r: "map_of (build K rows []) k = Some r"
    by (cases "map_of (build K rows []) k") (auto simp: map_of_eq_None_iff)
  from build_entry [OF r] Cons r show ?case
    by (simp add: rows_for_def map_filter_simps)
qed

lemma write_loop_built:
  "set ks \<subseteq> fst ` set (build K rows []) \<Longrightarrow> \<forall>r \<in> set rows. wrong_fields names r = [] \<Longrightarrow>
     write_loop names (build K rows []) ks =
       (rows_for (build K rows []) ks,
        map (\<lambda>r. key_line (key_of K r) r) (rows_for (build K rows []) ks), None)"
proof (induction ks)
  case Nil
  show ?case by (simp add: rows_for_def map_filter_simps)
next
  case (Cons k ks)
  then obtain r where r: "map_of (build K rows []) k = Some r"
    by (cases "map_of (build K rows []) k") (auto simp: map_of_eq_None_iff)
  from build_entry [OF r] Cons r show ?case
    by (simp add: rows_for_def map_filter_simps)
qed

lemma print_loop_built:
  "set ks \<subseteq> fst ` set (build K rows []) \<Longrightarrow>
     print_loop (build K rows []) ks =
       (map (\<lambda>r. key_line (key_of K r) r) (rows_for (build K rows []) ks), None)"
proof (induction ks)
  case Nil
  show ?case by (simp add: rows_for_def map_filter_simps)
next
  case (Cons k ks)
  then obtain r where r: "map_of (build K rows []) k = Some r"
    by (cases "map_of (build K rows []) k") (auto simp: map_of_eq_None_iff)
  from build_entry [OF r] Cons r show ?case
    by (simp add: rows_for_def map_filter_simps)
qed

lemma collect_diffs_eq:
  "set ks \<subseteq> fst ` set idx1 \<inter> fst ` set idx2 \<Longrightarrow>
   collect_diffs K C idx1 idx2 ks (ds, out) =
     ((ds @ map (fact_row K) (diff_facts C idx1 idx2 ks),
       out @ map fact_line (diff_facts C idx1 idx2 ks)), None)"
proof (induction ks arbitrary: ds out)
  case Nil
  show ?case by (simp add: diff_facts_def)
next
  case (Cons k ks)
  from Cons.prems obtain r1 where r1: "map_of idx1 k = Some r1"
    by (cases "map_of idx1 k") (auto simp: map_of_eq_None_iff)
  from Cons.prems obtain r2 where r2: "map_of idx2 k = Some r2"
    by (cases "map_of idx2 k") (auto simp: map_of_eq_None_iff)
  have step: "diff_facts C idx1 idx2 (k # ks) =
      map (\<lambda>c. (k, c, get_or_empty r1 c, get_or_empty r2 c))
        (filter (\<lambda>c. get_or_empty r1 c \<noteq> get_or_empty r2 c) C) @ diff_facts C idx1 idx2 ks"
    by (simp add: diff_facts_def key_differences_def r1 r2)
  from Cons.prems have sub: "set ks \<subseteq> fst ` set idx1 \<inter> fst ` set idx2" by simp
  show ?case
    by (simp add: r1 r2 compare_row_eq Cons.IH [OF sub] step)
qed

lemma key_differences_fst:
  "f \<in> set (key_differences C idx1 idx2 k) \<Longrightarrow> fst f = k"
  by (auto simp: key_differences_def split: option.splits)

lemma diff_facts_keys: "fst ` set (diff_facts C idx1 idx2 ks) \<subseteq> set ks"
  by (auto simp: diff_facts_def dest: key_differences_fst)

lemma sorted_constant:
  "\<forall>x \<in> set xs. x = k \<Longrightarrow> sorted (xs :: key list)"
  by (induction xs) auto

lemma diff_facts_sorted:
  "sorted ks \<Longrightarrow> sorted (map fst (diff_facts C idx1 idx2 ks))"
proof (induction ks)
  case Nil
  show ?case by (simp add: diff_facts_def)
next
  case (Cons k ks)
  let ?here = "map fst (key_differences C idx1 idx2 k)"
  let ?rest = "map fst (diff_facts C idx1 idx2 ks)"
  have fst_here: "\<forall>x \<in> set ?here. x = k"
    by (auto dest: key_differences_fst)
  then have here: "sorted ?here"
    by (rule sorted_constant)
  have later: "\<forall>x \<in> set ?rest. k \<le> x"
    using diff_facts_keys [of C idx1 idx2 ks] Cons.prems by auto
  have rest: "sorted ?rest"
    using Cons by simp
  have "sorted (?here @ ?rest)"
    unfolding sorted_append
  proof (intro conjI ballI)
    show "sorted ?here" by (rule here)
    show "sorted ?rest" by (rule rest)
  next
    fix x y
    assume "x \<in> set ?here" and "y \<in> set ?rest"
    then have "x = k" and "k \<le> y"
      using fst_here later by blast+
    then show "x \<le> y" by (simp only:)
  qed
  then show ?case
    by (simp add: diff_facts_def)
qed

lemma diff_facts_filter:
  "distinct ks \<Longrightarrow>
     filter (\<lambda>f. fst f = k) (diff_facts C idx1 idx2 ks) =
       (if k \<in> set ks then key_differences C idx1 idx2 k else [])"
proof (induction ks)
  case Nil
  show ?case by (simp add: diff_facts_def)
next
  case (Cons k' ks)
  have split: "diff_facts C idx1 idx2 (k' # ks) = key_differences C idx1 idx2 k' @ diff_facts C idx1 idx2 ks"
    by (simp add: diff_facts_def)
  have own: "filter (\<lambda>f. fst f = k) (key_differences C idx1 idx2 k') =
      (if k = k' then key_differences C idx1 idx2 k' else [])"
    by (auto simp: filter_empty_conv filter_id_conv dest: key_differences_fst)
  from Cons show ?case
    by (auto simp: split own)
qed

lemma key_differences_columns:
  "subseq (map (fst \<circ> snd) (key_differences C idx1 idx2 k)) C"
  by (auto simp: key_differences_def comp_def split: option.splits)

lemma diff_facts_columns:
  "distinct ks \<Longrightarrow> subseq (map (fst \<circ> snd) (filter (\<lambda>f. fst f = k) (diff_facts C idx1 idx2 ks))) C"
  by (simp add: diff_facts_filter key_differences_columns)

lemma writerows_accepted:
  "\<forall>r \<in> set rs. wrong_fields names r = [] \<Longrightarrow> writerows names rs = (rs, None)"
  by (induction rs) simp_all

lemma fold_update_keys:
  "fst ` set (fold (\<lambda>(key_col, v) acc. AList.update key_col v acc) zs acc)
     = fst ` set zs \<union> fst ` set acc"
proof (induction zs arbitrary: acc)
  case Nil
  show ?case by simp
next
  case (Cons z zs)
  have "fst ` set (fold (\<lambda>(key_col, v) acc. AList.update key_col v acc) (z # zs) acc)
      = fst ` set zs \<union> fst ` set (AList.update (fst z) (snd z) acc)"
    by (simp add: Cons.IH split_beta)
  also have "\<dots> = fst ` set (z # zs) \<union> fst ` set acc"
    by (simp add: dom_update)
  finally show ?case .
qed

lemma row_out_keys:
  "fst ` set (cells (row_out K k c v1 v2)) \<subseteq> set K \<union> {''column'', ''value_file1'', ''value_file2''}"
proof -
  have "fst ` set (zip K k) \<subseteq> set K"
    by (auto dest: set_zip_leftD)
  then show ?thesis
    by (simp add: row_out_def dom_update fold_update_keys) blast
qed

lemma row_out_accepted:
  "wrong_fields (map Some (K @ [''column'', ''value_file1'', ''value_file2''])) (row_out K k c v1 v2) = []"
proof -
  have "extra (row_out K k c v1 v2) = None"
    by (simp add: row_out_def)
  with row_out_keys [of K k c v1 v2] show ?thesis
    by (auto simp: wrong_fields_def keys_of_def filter_empty_conv)
qed

lemma fact_row_accepted:
  "wrong_fields (map Some (K @ [''column'', ''value_file1'', ''value_file2''])) (fact_row K f) = []"
  unfolding fact_row_def split_beta by (rule row_out_accepted)

lemma export_diffs_facts:
  "export_diffs d K (map (fact_row K) F) =
     \<lparr>result = Inr (),
      writes = (if F = [] then []
                else export_to d (map Some (K @ [''column'', ''value_file1'', ''value_file2'']))
                       (map (fact_row K) F)),
      prints = (case given d of
                  None \<Rightarrow> []
                | Some p \<Rightarrow> [if F = [] then no_column_differences else wrote_differences (length F) p])\<rparr>"
proof -
  let ?names = "map Some (K @ [''column'', ''value_file1'', ''value_file2''])"
  have "\<forall>r \<in> set (map (fact_row K) F). wrong_fields ?names r = []"
  proof
    fix r
    assume "r \<in> set (map (fact_row K) F)"
    then obtain f where "r = fact_row K f" by auto
    then show "wrong_fields ?names r = []"
      by (simp only: fact_row_accepted)
  qed
  then have "writerows ?names (map (fact_row K) F) = (map (fact_row K) F, None)"
    by (rule writerows_accepted)
  then show ?thesis
    by (simp add: export_diffs_def export_rows_def export_to_def return_run_def print_run_def
        split: option.splits)
qed

lemma only_in_block_built:
  assumes "S \<subseteq> fst ` set (build K rows [])" and "finite S"
    and "\<forall>k \<in> S. None \<notin> set k" and "\<forall>r \<in> set rows. wrong_fields names r = []"
  shows "only_in_block title (build K rows []) S output names =
     (if S = {} then return_run ()
      else \<lparr>result = Inr (),
            writes = export_to output names (rows_for (build K rows []) (sorted_list_of_set S)),
            prints = [Text title] #
              map (\<lambda>r. key_line (key_of K r) r) (rows_for (build K rows []) (sorted_list_of_set S)) @
              [dashes]\<rparr>)"
proof -
  let ?ks = "sorted_list_of_set S"
  have sub: "set ?ks \<subseteq> fst ` set (build K rows [])"
    using assms(1,2) by simp
  note w = write_loop_built [OF sub assms(4)] and p = print_loop_built [OF sub]
  show ?thesis
    by (simp add: only_in_block_def py_sorted_text [OF assms(3)] w p export_to_def
        split: option.splits)
qed

lemma rows_for_Nil_iff:
  assumes "S \<subseteq> fst ` set (build K rows [])" and "finite S"
  shows "rows_for (build K rows []) (sorted_list_of_set S) = [] \<longleftrightarrow> S = {}"
proof -
  let ?R = "rows_for (build K rows []) (sorted_list_of_set S)"
  have "set (sorted_list_of_set S) \<subseteq> fst ` set (build K rows [])"
    using assms by simp
  then have m: "map (key_of K) ?R = sorted_list_of_set S"
    by (rule rows_for_keys [THEN conjunct1])
  have "(?R = []) = (map (key_of K) ?R = [])"
    by (simp only: map_is_Nil_conv)
  also have "\<dots> = (sorted_list_of_set S = [])"
    by (simp only: m)
  also have "\<dots> = (S = {})"
    using assms(2) by (rule sorted_list_of_set_eq_Nil_iff)
  finally show ?thesis .
qed

lemma diff_loop_built:
  assumes "\<forall>k \<in> key_of K ` set rows1. None \<notin> set k"
  shows "diff_loop K C (build K rows1 []) (build K rows2 [])
       (key_of K ` set rows1 \<inter> key_of K ` set rows2) =
     \<lparr>result = Inr (map (fact_row K) (shared_differences K C rows1 rows2)),
      writes = [], prints = map fact_line (shared_differences K C rows1 rows2)\<rparr>"
proof -
  let ?S = "key_of K ` set rows1 \<inter> key_of K ` set rows2"
  have both: "set (sorted_list_of_set ?S)
      \<subseteq> fst ` set (build K rows1 []) \<inter> fst ` set (build K rows2 [])"
    by (auto simp: build_keys)
  from assms have "\<forall>k \<in> ?S. None \<notin> set k" by blast
  then have s: "py_sorted ?S = Inr (sorted_list_of_set ?S)"
    by (rule py_sorted_text)
  show ?thesis
    unfolding diff_loop_def s
    using collect_diffs_eq [OF both, of K C "[]" "[]"]
    by (simp add: shared_differences_def)
qed

lemma compare_indexes_built:
  assumes "\<forall>k \<in> key_of K ` set rows1. None \<notin> set k"
    and "\<forall>k \<in> key_of K ` set rows2. None \<notin> set k"
    and "\<forall>r \<in> set rows1. wrong_fields names1 r = []"
    and "\<forall>r \<in> set rows2. wrong_fields names2 r = []"
  shows "compare_indexes (build K rows1 []) (build K rows2 []) names1 names2 K C d o1 o2 =
     report K d o1 o2 names1 names2
       (only_in_rows K rows1 rows2) (only_in_rows K rows2 rows1)
       (shared_differences K C rows1 rows2)"
proof -
  let ?idx1 = "build K rows1 []" and ?idx2 = "build K rows2 []"
  let ?k1 = "key_of K ` set rows1" and ?k2 = "key_of K ` set rows2"
  let ?A = "only_in_rows K rows1 rows2" and ?B = "only_in_rows K rows2 rows1"
  let ?F = "shared_differences K C rows1 rows2"
  have keys1: "set (map fst ?idx1) = ?k1" and keys2: "set (map fst ?idx2) = ?k2"
    by (simp_all add: build_keys)
  have s1: "?k1 - ?k2 \<subseteq> fst ` set ?idx1" and s2: "?k2 - ?k1 \<subseteq> fst ` set ?idx2"
    by (auto simp: build_keys)
  have f1: "finite (?k1 - ?k2)" and f2: "finite (?k2 - ?k1)"
    by simp_all
  from assms(1) have t1: "\<forall>k \<in> ?k1 - ?k2. None \<notin> set k" by blast
  from assms(2) have t2: "\<forall>k \<in> ?k2 - ?k1. None \<notin> set k" by blast
  have e1: "(?k1 - ?k2 = {}) = (?A = [])"
    using rows_for_Nil_iff [OF s1 f1] by (simp add: only_in_rows_def)
  have e2: "(?k2 - ?k1 = {}) = (?B = [])"
    using rows_for_Nil_iff [OF s2 f2] by (simp add: only_in_rows_def)
  have blk1: "only_in_block ''Rows only in file1:'' ?idx1 (?k1 - ?k2) o1 names1 =
      \<lparr>result = Inr (), writes = (if ?A = [] then [] else export_to o1 names1 ?A),
       prints = only_in_lines ''Rows only in file1:'' K ?A\<rparr>"
    unfolding only_in_block_built [OF s1 f1 t1 assms(3)] e1
    by (simp add: only_in_lines_def only_in_rows_def return_run_def)
  have blk2: "only_in_block ''Rows only in file2:'' ?idx2 (?k2 - ?k1) o2 names2 =
      \<lparr>result = Inr (), writes = (if ?B = [] then [] else export_to o2 names2 ?B),
       prints = only_in_lines ''Rows only in file2:'' K ?B\<rparr>"
    unfolding only_in_block_built [OF s2 f2 t2 assms(4)] e2
    by (simp add: only_in_lines_def only_in_rows_def return_run_def)
  note dl = diff_loop_built [OF assms(1), of C rows2]
  show ?thesis
    unfolding compare_indexes_def Let_def keys1 keys2 blk1 blk2 dl e1 e2
    by (simp add: bind_run_def export_diffs_facts report_def print_run_def return_run_def)
qed

lemma validate_compare_columns_valid:
  "list_all (\<lambda>c. has_col r1 c \<and> has_col r2 c) C \<Longrightarrow>
     validate_compare_columns file1 file2 r1 r2 C = None"
  by (induction C) simp_all

lemma compare_csv_by_keys_valid:
  assumes "list_all (has_col r1) K" and "list_all (has_col r2) K"
    and "list_all (\<lambda>c. has_col r1 c \<and> has_col r2 c) C"
    and "text_keys K (r1 # rest1)" and "text_keys K (r2 # rest2)"
    and "fits_header (r1 # rest1)" and "fits_header (r2 # rest2)"
  shows "compare_csv_by_keys file1 file2 (r1 # rest1) (r2 # rest2) K C d o1 o2 =
     report K d o1 o2 (keys_of r1) (keys_of r2)
       (only_in_rows K (r1 # rest1) (r2 # rest2)) (only_in_rows K (r2 # rest2) (r1 # rest1))
       (shared_differences K C (r1 # rest1) (r2 # rest2))"
proof -
  from assms(4) have t1: "\<forall>k \<in> key_of K ` set (r1 # rest1). None \<notin> set k"
    by (auto simp: text_keys_def list_all_iff)
  from assms(5) have t2: "\<forall>k \<in> key_of K ` set (r2 # rest2). None \<notin> set k"
    by (auto simp: text_keys_def list_all_iff)
  from assms(6) have a1: "\<forall>r \<in> set (r1 # rest1). wrong_fields (keys_of r1) r = []"
    by (simp add: fits_header_def list_all_iff)
  from assms(7) have a2: "\<forall>r \<in> set (r2 # rest2). wrong_fields (keys_of r2) r = []"
    by (simp add: fits_header_def list_all_iff)
  show ?thesis
    unfolding compare_csv_by_keys_def
    by (simp only: list.case validate_compare_columns_valid [OF assms(3)] option.case
        index_by_keys_valid [OF assms(1)] index_by_keys_valid [OF assms(2)] sum.case
        compare_indexes_built [OF t1 t2 a1 a2])
qed

lemma only_in_rows_sorted:
  "map (key_of K) (only_in_rows K rows other)
     = sorted_list_of_set (key_of K ` set rows - key_of K ` set other) \<and>
   set (only_in_rows K rows other) \<subseteq> set rows"
  unfolding only_in_rows_def
  by (rule rows_for_keys) (auto simp: build_keys)

lemma key_differences_same: "key_differences C idx idx k = []"
  by (simp add: key_differences_def split: option.splits)

lemma shared_differences_same: "shared_differences K C rows rows = []"
  by (simp add: shared_differences_def diff_facts_def key_differences_same)


text \<open>
  Where no key cell is \<^verbatim>\<open>None\<close> and no row has a field beyond those of the first row,
  the comparison of two files with valid columns completes, and it is the report of
  three lists: the rows only in file 1 and the rows only in file 2, each by strictly
  ascending composite key (tuples of texts in lexicographic order), and the
  differences, by ascending key; the differences of one key name their columns in the
  order of the compare columns.
\<close>

lemma compare_csv_by_keys_sorted_text:
  assumes "list_all (has_col r1) K" and "list_all (has_col r2) K"
    and "list_all (\<lambda>c. has_col r1 c \<and> has_col r2 c) C"
    and "text_keys K (r1 # rest1)" and "text_keys K (r2 # rest2)"
    and "fits_header (r1 # rest1)" and "fits_header (r2 # rest2)"
  shows "\<exists>A B F.
     compare_csv_by_keys file1 file2 (r1 # rest1) (r2 # rest2) K C d o1 o2 =
       report K d o1 o2 (keys_of r1) (keys_of r2) A B F \<and>
     sorted_wrt (<) (map (key_of K) A) \<and>
     set (map (key_of K) A) = key_of K ` set (r1 # rest1) - key_of K ` set (r2 # rest2) \<and>
     set A \<subseteq> set (r1 # rest1) \<and>
     sorted_wrt (<) (map (key_of K) B) \<and>
     set (map (key_of K) B) = key_of K ` set (r2 # rest2) - key_of K ` set (r1 # rest1) \<and>
     set B \<subseteq> set (r2 # rest2) \<and>
     sorted (map fst F) \<and>
     fst ` set F \<subseteq> key_of K ` set (r1 # rest1) \<inter> key_of K ` set (r2 # rest2) \<and>
     (\<forall>k. subseq (map (fst \<circ> snd) (filter (\<lambda>f. fst f = k) F)) C)"
proof -
  let ?rows1 = "r1 # rest1" and ?rows2 = "r2 # rest2"
  let ?A = "only_in_rows K ?rows1 ?rows2" and ?B = "only_in_rows K ?rows2 ?rows1"
  let ?F = "shared_differences K C ?rows1 ?rows2"
  let ?ks = "sorted_list_of_set (key_of K ` set ?rows1 \<inter> key_of K ` set ?rows2)"
  note A = only_in_rows_sorted [of K ?rows1 ?rows2]
  note B = only_in_rows_sorted [of K ?rows2 ?rows1]
  have a1: "sorted_wrt (<) (map (key_of K) ?A)"
    by (simp only: A [THEN conjunct1] strict_sorted_list_of_set)
  have a2: "set (map (key_of K) ?A) = key_of K ` set ?rows1 - key_of K ` set ?rows2"
    by (simp only: A [THEN conjunct1]) simp
  have b1: "sorted_wrt (<) (map (key_of K) ?B)"
    by (simp only: B [THEN conjunct1] strict_sorted_list_of_set)
  have b2: "set (map (key_of K) ?B) = key_of K ` set ?rows2 - key_of K ` set ?rows1"
    by (simp only: B [THEN conjunct1]) simp
  have f1: "sorted (map fst ?F)"
    unfolding shared_differences_def by (rule diff_facts_sorted) simp
  have "fst ` set ?F \<subseteq> set ?ks"
    unfolding shared_differences_def by (rule diff_facts_keys)
  then have f2: "fst ` set ?F \<subseteq> key_of K ` set ?rows1 \<inter> key_of K ` set ?rows2"
    by simp
  have f3: "subseq (map (fst \<circ> snd) (filter (\<lambda>f. fst f = k) ?F)) C" for k
    unfolding shared_differences_def by (rule diff_facts_columns) simp
  from compare_csv_by_keys_valid [OF assms] a1 a2 A [THEN conjunct2] b1 b2 B [THEN conjunct2]
    f1 f2 f3
  show ?thesis by blast
qed

text \<open>
  The files \<^verbatim>\<open>id,price,qty / 3,30,1 / 1,10,1 / 2,20,1 / 5,50,1\<close> and
  \<^verbatim>\<open>id,price,qty / 7,70,1 / 2,25,2 / 6,60,1 / 5,55,1\<close> compared on \<^verbatim>\<open>[id]\<close> and
  \<^verbatim>\<open>[price, qty]\<close>: two rows only in each file, and three differences under two keys.
\<close>

lemma compare_csv_by_keys_sorted_text_example:
  "compare_csv_by_keys ''file1.csv'' ''file2.csv''
     [Row [(''id'', Some ''3''), (''price'', Some ''30''), (''qty'', Some ''1'')] None,
      Row [(''id'', Some ''1''), (''price'', Some ''10''), (''qty'', Some ''1'')] None,
      Row [(''id'', Some ''2''), (''price'', Some ''20''), (''qty'', Some ''1'')] None,
      Row [(''id'', Some ''5''), (''price'', Some ''50''), (''qty'', Some ''1'')] None]
     [Row [(''id'', Some ''7''), (''price'', Some ''70''), (''qty'', Some ''1'')] None,
      Row [(''id'', Some ''2''), (''price'', Some ''25''), (''qty'', Some ''2'')] None,
      Row [(''id'', Some ''6''), (''price'', Some ''60''), (''qty'', Some ''1'')] None,
      Row [(''id'', Some ''5''), (''price'', Some ''55''), (''qty'', Some ''1'')] None]
     [''id''] [''price'', ''qty''] None None None
   = report [''id''] None None None
       [Some ''id'', Some ''price'', Some ''qty''] [Some ''id'', Some ''price'', Some ''qty'']
       [Row [(''id'', Some ''1''), (''price'', Some ''10''), (''qty'', Some ''1'')] None,
        Row [(''id'', Some ''3''), (''price'', Some ''30''), (''qty'', Some ''1'')] None]
       [Row [(''id'', Some ''6''), (''price'', Some ''60''), (''qty'', Some ''1'')] None,
        Row [(''id'', Some ''7''), (''price'', Some ''70''), (''qty'', Some ''1'')] None]
       [([Some ''2''], ''price'', Some ''20'', Some ''25''),
        ([Some ''2''], ''qty'', Some ''1'', Some ''2''),
        ([Some ''5''], ''price'', Some ''50'', Some ''55'')]"
proof -
  let ?r1 = "Row [(''id'', Some ''3''), (''price'', Some ''30''), (''qty'', Some ''1'')] None"
  let ?rest1 = "[Row [(''id'', Some ''1''), (''price'', Some ''10''), (''qty'', Some ''1'')] None,
      Row [(''id'', Some ''2''), (''price'', Some ''20''), (''qty'', Some ''1'')] None,
      Row [(''id'', Some ''5''), (''price'', Some ''50''), (''qty'', Some ''1'')] None]"
  let ?r2 = "Row [(''id'', Some ''7''), (''price'', Some ''70''), (''qty'', Some ''1'')] None"
  let ?rest2 = "[Row [(''id'', Some ''2''), (''price'', Some ''25''), (''qty'', Some ''2'')] None,
      Row [(''id'', Some ''6''), (''price'', Some ''60''), (''qty'', Some ''1'')] None,
      Row [(''id'', Some ''5''), (''price'', Some ''55''), (''qty'', Some ''1'')] None]"
  have K1: "list_all (has_col ?r1) [''id'']" and K2: "list_all (has_col ?r2) [''id'']"
    and C: "list_all (\<lambda>c. has_col ?r1 c \<and> has_col ?r2 c) [''price'', ''qty'']"
    by (simp_all add: has_col_def)
  have T1: "text_keys [''id''] (?r1 # ?rest1)" and T2: "text_keys [''id''] (?r2 # ?rest2)"
    by (simp_all add: text_keys_def key_of_def get_or_empty_def)
  have H1: "fits_header (?r1 # ?rest1)" and H2: "fits_header (?r2 # ?rest2)"
    by (simp_all add: fits_header_def wrong_fields_def keys_of_def)
  have k1: "key_of [''id''] ` set (?r1 # ?rest1) = {[Some ''3''], [Some ''1''], [Some ''2''], [Some ''5'']}"
    and k2: "key_of [''id''] ` set (?r2 # ?rest2) = {[Some ''7''], [Some ''2''], [Some ''6''], [Some ''5'']}"
    by (simp_all add: key_of_def get_or_empty_def)
  have only1: "{[Some ''3''], [Some ''1''], [Some ''2''], [Some ''5'']}
      - {[Some ''7''], [Some ''2''], [Some ''6''], [Some ''5'']} = {[Some ''3''], [Some ''1'']}"
    by auto
  have only2: "{[Some ''7''], [Some ''2''], [Some ''6''], [Some ''5'']}
      - {[Some ''3''], [Some ''1''], [Some ''2''], [Some ''5'']} = {[Some ''7''], [Some ''6'']}"
    by auto
  have both: "{[Some ''3''], [Some ''1''], [Some ''2''], [Some ''5'']}
      \<inter> {[Some ''7''], [Some ''2''], [Some ''6''], [Some ''5'']} = {[Some ''2''], [Some ''5'']}"
    by auto
  have A: "only_in_rows [''id''] (?r1 # ?rest1) (?r2 # ?rest2) =
      [Row [(''id'', Some ''1''), (''price'', Some ''10''), (''qty'', Some ''1'')] None,
       Row [(''id'', Some ''3''), (''price'', Some ''30''), (''qty'', Some ''1'')] None]"
    unfolding only_in_rows_def k1 k2 only1
    by (simp add: rows_for_def map_filter_simps key_of_def get_or_empty_def
        less_eq_char_def less_char_def)
  have B: "only_in_rows [''id''] (?r2 # ?rest2) (?r1 # ?rest1) =
      [Row [(''id'', Some ''6''), (''price'', Some ''60''), (''qty'', Some ''1'')] None,
       Row [(''id'', Some ''7''), (''price'', Some ''70''), (''qty'', Some ''1'')] None]"
    unfolding only_in_rows_def k1 k2 only2
    by (simp add: rows_for_def map_filter_simps key_of_def get_or_empty_def
        less_eq_char_def less_char_def)
  have F: "shared_differences [''id''] [''price'', ''qty''] (?r1 # ?rest1) (?r2 # ?rest2) =
      [([Some ''2''], ''price'', Some ''20'', Some ''25''),
       ([Some ''2''], ''qty'', Some ''1'', Some ''2''),
       ([Some ''5''], ''price'', Some ''50'', Some ''55'')]"
    unfolding shared_differences_def k1 k2 both
    by (simp add: diff_facts_def key_differences_def key_of_def get_or_empty_def
        less_eq_char_def less_char_def)
  show ?thesis
    unfolding compare_csv_by_keys_valid [OF K1 K2 C T1 T2 H1 H2] A B F
    by (simp add: keys_of_def)
qed

text \<open>
  Where no key cell is \<^verbatim>\<open>None\<close>, comparing a non-empty dataset with itself on columns of
  its header writes no file: no row is only on one side and no difference is found,
  which is all the run prints.
\<close>

lemma compare_csv_by_keys_self_text:
  assumes "list_all (has_col r0) K" and "list_all (has_col r0) C"
    and "text_keys K (r0 # rest)"
  shows "compare_csv_by_keys file1 file2 (r0 # rest) (r0 # rest) K C d o1 o2 =
     \<lparr>result = Inr (), writes = [],
      prints =
        (case given d of None \<Rightarrow> [] | Some p \<Rightarrow> [no_column_differences]) @ [no_differences]\<rparr>"
proof -
  let ?rows = "r0 # rest"
  let ?idx = "build K ?rows []"
  have keys: "set (map fst ?idx) = key_of K ` set ?rows"
    by (simp add: build_keys)
  from assms(3) have t: "\<forall>k \<in> key_of K ` set ?rows. None \<notin> set k"
    by (auto simp: text_keys_def list_all_iff)
  note dl = diff_loop_built [OF t, of C ?rows, unfolded shared_differences_same]
  have ci: "compare_indexes ?idx ?idx names1 names2 K C d o1 o2 =
      \<lparr>result = Inr (), writes = [],
       prints =
         (case given d of None \<Rightarrow> [] | Some p \<Rightarrow> [no_column_differences]) @ [no_differences]\<rparr>"
      for names1 names2
    unfolding compare_indexes_def Let_def keys Diff_cancel only_in_block_empty dl
    using export_diffs_facts [of d K "[]"]
    by (simp add: bind_run_def return_run_def print_run_def split: option.splits)
  from assms(2) have C: "list_all (\<lambda>c. has_col r0 c \<and> has_col r0 c) C"
    by (simp add: list_all_iff)
  show ?thesis
    unfolding compare_csv_by_keys_def
    by (simp only: list.case validate_compare_columns_valid [OF C] option.case
        index_by_keys_valid [OF assms(1)] sum.case ci)
qed

lemma compare_csv_by_keys_self_text_example:
  "compare_csv_by_keys ''a.csv'' ''a.csv''
     (Row [(''price'', Some ''20''), (''id'', Some ''2'')] None #
        [Row [(''price'', Some ''10''), (''id'', Some ''1'')] None])
     (Row [(''price'', Some ''20''), (''id'', Some ''2'')] None #
        [Row [(''price'', Some ''10''), (''id'', Some ''1'')] None])
     [''id''] [''price'']
     (Some ''differences.csv'') (Some ''only_in_file1.csv'') (Some ''only_in_file2.csv'') =
   \<lparr>result = Inr (), writes = [], prints = [no_column_differences, no_differences]\<rparr>"
proof -
  let ?r0 = "Row [(''price'', Some ''20''), (''id'', Some ''2'')] None"
  let ?rest = "[Row [(''price'', Some ''10''), (''id'', Some ''1'')] None]"
  have K: "list_all (has_col ?r0) [''id'']" and C: "list_all (has_col ?r0) [''price'']"
    by (simp_all add: has_col_def)
  have T: "text_keys [''id''] (?r0 # ?rest)"
    by (simp add: text_keys_def key_of_def get_or_empty_def)
  show ?thesis
    using compare_csv_by_keys_self_text [OF K C T, of "''a.csv''" "''a.csv''"
        "Some ''differences.csv''" "Some ''only_in_file1.csv''" "Some ''only_in_file2.csv''"]
    by (simp add: given_def)
qed

section \<open>The comparison of a file with a short line\<close>

text \<open>
  C6. A comparison of two non-empty files on valid columns is to report the rows on one
  side only and the differences by ascending composite key. With a short line in a
  file the code does not. \<^verbatim>\<open>read_csv\<close> gives the rows \<^verbatim>\<open>{'price': '10', 'id': '1'}\<close> and
  \<^verbatim>\<open>{'price': '30', 'id': None}\<close> for the text \<^verbatim>\<open>price,id / 10,1 / 30\<close>, and
  \<^verbatim>\<open>{'price': '5', 'id': '2'}\<close> for \<^verbatim>\<open>price,id / 5,2\<close>. The key and compare columns are in
  both headers. The default \<^verbatim>\<open>""\<close> of \<^verbatim>\<open>r.get(col, "")\<close> does not stand in for the
  \<^verbatim>\<open>None\<close> of the short line, so the keys of file 1 are \<^verbatim>\<open>('1',)\<close> and \<^verbatim>\<open>(None,)\<close>, both
  only in file 1. The run prints the title, opens the only-in-file-1 report, writes
  its header, and \<^verbatim>\<open>sorted\<close> raises \<^verbatim>\<open>TypeError\<close>: no row is reported in any order, and
  no difference is looked for.
\<close>

theorem compare_csv_by_keys_short_row_raises:
  "list_all (has_col (Row [(''price'', Some ''10''), (''id'', Some ''1'')] None)) [''id'', ''price''] \<and>
   list_all (has_col (Row [(''price'', Some ''5''), (''id'', Some ''2'')] None)) [''id'', ''price''] \<and>
   compare_csv_by_keys ''file1.csv'' ''file2.csv''
     [Row [(''price'', Some ''10''), (''id'', Some ''1'')] None,
      Row [(''price'', Some ''30''), (''id'', None)] None]
     [Row [(''price'', Some ''5''), (''id'', Some ''2'')] None]
     [''id''] [''price'']
     (Some ''differences.csv'') (Some ''only_in_file1.csv'') (Some ''only_in_file2.csv'')
   = \<lparr>result = Inl TypeError,
      writes = [\<lparr>path = ''only_in_file1.csv'', fieldnames = [Some ''price'', Some ''id''],
                 written = []\<rparr>],
      prints = [[Text ''Rows only in file1:'']]\<rparr>"
proof -
  have only1: "{[Some ''1''], [None]} - {[Some ''2'']} = {[Some ''1''], [None :: cell]}"
    by auto
  show ?thesis
    by (simp add: compare_csv_by_keys_def has_col_def index_by_keys_def key_of_def
        get_or_empty_def compare_indexes_def only_in_block_def given_def
        py_sorted_def keys_of_def bind_run_def Let_def only1)
qed

text \<open>
  C7. A comparison of a non-empty file with itself on columns of its header is to find
  no row on one side only and no difference. With a short line in the file the code
  does not complete: for the text \<^verbatim>\<open>price,id / 10,1 / 30\<close> no key is on one side only,
  and \<^verbatim>\<open>sorted(in_both)\<close> raises \<^verbatim>\<open>TypeError\<close> on the keys \<^verbatim>\<open>('1',)\<close> and \<^verbatim>\<open>(None,)\<close>.
  The run ends with the error before it has compared a row or printed a line.
\<close>

theorem compare_csv_by_keys_self_short_row_raises:
  "list_all (has_col (Row [(''price'', Some ''10''), (''id'', Some ''1'')] None)) [''id'', ''price''] \<and>
   compare_csv_by_keys ''a.csv'' ''a.csv''
     [Row [(''price'', Some ''10''), (''id'', Some ''1'')] None,
      Row [(''price'', Some ''30''), (''id'', None)] None]
     [Row [(''price'', Some ''10''), (''id'', Some ''1'')] None,
      Row [(''price'', Some ''30''), (''id'', None)] None]
     [''id''] [''price'']
     (Some ''differences.csv'') (Some ''only_in_file1.csv'') (Some ''only_in_file2.csv'')
   = \<lparr>result = Inl TypeError, writes = [], prints = []\<rparr>"
  by (simp add: compare_csv_by_keys_def has_col_def index_by_keys_def key_of_def
      get_or_empty_def compare_indexes_def only_in_block_def given_def diff_loop_def
      py_sorted_def keys_of_def bind_run_def return_run_def raise_run_def Let_def)

end
